theory Spec2Isabelle
  imports Complex_Main "HOL-Library.Log_Nat"
begin

unbundle bit_operations_syntax

section \<open>Values that cross the HTTP boundary\<close>

text \<open>
  Strings are HOL strings: the UTF-8 bytes of the JavaScript string. On ASCII text one
  \<open>char\<close> is one UTF-16 code unit, so \<open>length\<close> and the regular expressions of the
  source mean the same on both sides.

  A JavaScript value as \<open>express.json()\<close> produces it, with \<open>JUndefined\<close> for what a
  missing property reads as. The pairs of a \<open>JObj\<close> are the object's own properties in the
  order \<open>Object.keys\<close> lists them.
\<close>

datatype jsval =
    JUndefined
  | JNull
  | JBool bool
  | JNum rat
  | JStr string
  | JArr "jsval list"
  | JObj "(string \<times> jsval) list"

text \<open>What \<open>res.status(code).json(body)\<close> sends.\<close>

datatype reply = Reply (statusCode: nat) (body: jsval)

section \<open>The idempotency guard (middleware/idempotency.middleware.ts)\<close>

subsection \<open>The key format\<close>

text \<open>
  \<open>/^[0-9a-f]{8}-[0-9a-f]{4}-[0-9a-f]{4}-[0-9a-f]{4}-[0-9a-f]{12}$/i\<close>: the pattern is a
  sequence of counted character classes and literal characters between the two anchors, so
  matching it needs no backtracking. The flag \<open>i\<close> adds \<open>A\<close>..\<open>F\<close> to the class.
\<close>

datatype atom = Hex nat | Lit char

definition hexClass :: "char \<Rightarrow> bool" where
  "hexClass c \<longleftrightarrow> c \<in> set ''0123456789abcdefABCDEF''"

fun matches :: "atom list \<Rightarrow> string \<Rightarrow> bool" where
  "matches [] s = (s = [])"
| "matches (Lit c # p) s = (case s of [] \<Rightarrow> False | x # xs \<Rightarrow> x = c \<and> matches p xs)"
| "matches (Hex n # p) s =
     (n \<le> length s \<and> list_all hexClass (take n s) \<and> matches p (drop n s))"

definition uuidRegex :: "atom list" where
  "uuidRegex =
     [Hex 8, Lit CHR ''-'', Hex 4, Lit CHR ''-'', Hex 4, Lit CHR ''-'', Hex 4, Lit CHR ''-'',
      Hex 12]"

definition uuidRegex_test :: "string \<Rightarrow> bool" where
  "uuidRegex_test s = matches uuidRegex s"

subsection \<open>The store and the request\<close>

text \<open>
  A row of the table \<open>idempotency_store\<close>. The unique index on \<open>key\<close> makes the table a
  map from keys to rows. Times are milliseconds since the epoch. The generated primary key
  \<open>id\<close> is never read by the code and is left out. The store hands back a row's
  \<open>response\<close> as the JSON value it was given: what the JSONB column and the serialiser
  do to the text of that value is outside this model.
\<close>

record row =
  key :: string
  response :: jsval
  createdAt :: int
  expiresAt :: int

type_synonym store = "string \<rightharpoonup> row"

text \<open>
  The part of the request the guard reads: the method, the header
  \<open>req.headers['idempotency-key']\<close> (\<open>None\<close> when the header was not sent) and, for the
  handlers behind the guard, the parsed body.
\<close>

record request =
  http_method :: string
  idempotency_key :: "string option"
  req_body :: jsval

text \<open>
  What one run of the guard takes from outside the program: the clock readings of the two
  \<open>new Date()\<close> calls and of the store's \<open>CURRENT_TIMESTAMP\<close> default, whether each
  Prisma call rejects, and \<open>racing\<close>, the writes of other requests that land in the store
  between this request's lookup and its own insert.
\<close>

record env =
  now_lookup :: int
  now_intercept :: int
  db_now :: int
  findUnique_fails :: bool
  delete_fails :: bool
  create_fails :: bool
  racing :: "store \<Rightarrow> store"

text \<open>The calls the guard makes, in order: the three Prisma calls and \<open>next()\<close>.\<close>

datatype event = FindUnique string | Delete string | Create string | Next

record 'w state =
  idempotencyStore :: store
  world :: 'w

definition badRequest :: "string \<Rightarrow> reply" where
  "badRequest msg = Reply 400 (JObj [(''error'', JStr ''Bad Request''), (''message'', JStr msg)])"

definition checkFailed :: reply where
  "checkFailed =
     Reply 500 (JObj [(''error'', JStr ''Internal Server Error''),
                      (''message'', JStr ''Failed to process idempotency check'')])"

text \<open>
  \<open>expiresAt.setHours(expiresAt.getHours() + 24)\<close> moves the local wall clock one day on.
  The server's zone is taken to have a fixed offset from UTC, where that is 86 400 000 ms.
\<close>

definition ttl :: int where
  "ttl = 24 * 60 * 60 * 1000"

text \<open>
  The patched \<open>res.json\<close>: on a 2xx status it starts
  \<open>prisma.idempotencyStore.create\<close> with the key, the body and the expiry, and its
  \<open>.catch(() => {})\<close> drops every rejection, the unique index's among them; the store
  stamps \<open>createdAt\<close> itself. The body is then handed on unchanged.
\<close>

definition res_json :: "env \<Rightarrow> string \<Rightarrow> reply \<Rightarrow> store \<Rightarrow> event list \<times> store" where
  "res_json e k r st =
     (if 200 \<le> statusCode r \<and> statusCode r < 300 then
        ([Create k],
         if create_fails e \<or> k \<in> dom st then st
         else st(k \<mapsto> \<lparr>key = k, response = body r, createdAt = db_now e,
                        expiresAt = now_intercept e + ttl\<rparr>))
      else ([], st))"

text \<open>
  From \<open>req.idempotencyKey = idempotencyKey\<close> on: \<open>next()\<close> runs the handlers behind
  the guard, which answer once through the patched \<open>res.json\<close>.
\<close>

definition proceed ::
  "env \<Rightarrow> ('w \<Rightarrow> reply \<times> 'w) \<Rightarrow> string \<Rightarrow> 'w state \<Rightarrow> reply \<times> event list \<times> 'w state" where
  "proceed e nxt k s =
     (let (r, w') = nxt (world s);
          (evs, st') = res_json e k r (racing e (idempotencyStore s))
      in (r, Next # evs, \<lparr>idempotencyStore = st', world = w'\<rparr>))"

definition idempotencyMiddleware ::
  "env \<Rightarrow> ('w \<Rightarrow> reply \<times> 'w) \<Rightarrow> request \<Rightarrow> 'w state \<Rightarrow> reply \<times> event list \<times> 'w state" where
  "idempotencyMiddleware e nxt req s =
     (if http_method req \<noteq> ''POST'' then
        (let (r, w') = nxt (world s) in (r, [Next], s\<lparr>world := w'\<rparr>))
      else case idempotency_key req of
        None \<Rightarrow>
          (badRequest ''Idempotency-Key header is required for POST requests'', [], s)
      | Some k \<Rightarrow>
          if k = [] then
            (badRequest ''Idempotency-Key header is required for POST requests'', [], s)
          else if \<not> uuidRegex_test k then
            (badRequest ''Idempotency-Key must be a valid UUID'', [], s)
          else if findUnique_fails e then (checkFailed, [FindUnique k], s)
          else
            (case idempotencyStore s k of
               None \<Rightarrow>
                 (let (r, evs, s') = proceed e nxt k s in (r, FindUnique k # evs, s'))
             | Some existingRecord \<Rightarrow>
                 if now_lookup e > expiresAt existingRecord then
                   (if delete_fails e then (checkFailed, [FindUnique k, Delete k], s)
                    else
                      (let (r, evs, s') =
                             proceed e nxt k
                               (s\<lparr>idempotencyStore := (idempotencyStore s)(k := None)\<rparr>)
                       in (r, FindUnique k # Delete k # evs, s')))
                 else (Reply 200 (response existingRecord), [FindUnique k], s)))"

section \<open>Money (utils/money.util.ts)\<close>

subsection \<open>JavaScript numbers\<close>

text \<open>
  A Number is an IEEE 754 binary64 value. Every finite one is a rational, so the finite
  values are modelled as the rationals that rounding produces. Only the non-negative half
  is embedded: no amount that reaches these functions carries a sign.
\<close>

datatype number = NaN | Infinity | Finite rat

fun gt :: "number \<Rightarrow> number \<Rightarrow> bool" where
  "gt (Finite x) (Finite y) = (x > y)"
| "gt Infinity (Finite y) = True"
| "gt _ _ = False"

fun le :: "number \<Rightarrow> number \<Rightarrow> bool" where
  "le (Finite x) (Finite y) = (x \<le> y)"
| "le (Finite x) Infinity = True"
| "le Infinity Infinity = True"
| "le _ _ = False"

definition isNaN :: "number \<Rightarrow> bool" where
  "isNaN x \<longleftrightarrow> x = NaN"

text \<open>\<open>ilog2 q\<close> is the integer \<open>k\<close> with \<open>2^k \<le> q < 2^(k+1)\<close>, for \<open>q > 0\<close>.\<close>

definition ilog2 :: "rat \<Rightarrow> int" where
  "ilog2 q =
     (let (a, b) = quotient_of q; k = bitlen a - bitlen b
      in if 2 powi k \<le> q then k else k - 1)"

definition roundTiesToEven :: "rat \<Rightarrow> int" where
  "roundTiesToEven x =
     (let f = \<lfloor>x\<rfloor>; d = x - of_int f
      in if d < 1 / 2 then f else if d > 1 / 2 then f + 1 else if even f then f else f + 1)"

text \<open>
  The binary64 value nearest to a non-negative rational, ties to the even significand: a
  significand of 53 bits, the exponent of the last place no smaller than \<open>-1074\<close>
  (subnormal numbers), and \<open>Infinity\<close> from \<open>2^1024\<close> on.
\<close>

definition binary64 :: "rat \<Rightarrow> number" where
  "binary64 q =
     (if q = 0 then Finite 0
      else
        let e = max (ilog2 q - 52) (- 1074);
            v = of_int (roundTiesToEven (q / 2 powi e)) * 2 powi e
        in if v \<ge> 2 ^ 1024 then Infinity else Finite v)"

subsection \<open>Strings of digits\<close>

definition isDigit :: "char \<Rightarrow> bool" where
  "isDigit c \<longleftrightarrow> c \<in> set ''0123456789''"

definition digitValue :: "char \<Rightarrow> nat" where
  "digitValue c = of_char c - 48"

definition digitChar :: "nat \<Rightarrow> char" where
  "digitChar d = char_of (48 + d)"

text \<open>The number a string of decimal digits denotes, its first digit the most significant.\<close>

definition digitsValue :: "string \<Rightarrow> nat" where
  "digitsValue ds = foldl (\<lambda>n c. 10 * n + digitValue c) 0 ds"

text \<open>The decimal digits of a natural number, with no leading zero.\<close>

fun digitsOf :: "nat \<Rightarrow> string" where
  "digitsOf n = (if n < 10 then [digitChar n] else digitsOf (n div 10) @ [digitChar (n mod 10)])"

declare digitsOf.simps [simp del]

text \<open>
  \<open>parseFloat\<close> on a string that starts with a digit: the longest prefix of the form
  digits, or digits \<open>.\<close> digits, read as a decimal and rounded to binary64. The calls
  in \<open>validateAmount\<close>, \<open>parseAmount\<close> and \<open>validateCreateExpense\<close> are on
  strings that passed \<open>amountRegex\<close>, where that prefix is the whole string. White space, signs, exponents and \<open>Infinity\<close>, which the builtin also reads,
  are not embedded: a string that does not start with a digit gives \<open>NaN\<close> here.
\<close>

definition parseFloat :: "string \<Rightarrow> number" where
  "parseFloat s =
     (let ip = takeWhile isDigit s; rest = dropWhile isDigit s;
          fp = (case rest of c # r \<Rightarrow> if c = CHR ''.'' then takeWhile isDigit r else [] | [] \<Rightarrow> [])
      in if ip = [] then NaN
         else binary64 (of_nat (digitsValue (ip @ fp)) / 10 ^ length fp))"

text \<open>
  \<open>x.toFixed(2)\<close> for \<open>0 \<le> x < 10^21\<close>: the integer \<open>n\<close> nearest to \<open>100 x\<close>, the
  larger one on a tie, printed with its last two digits behind the point. From \<open>10^21\<close>
  on the builtin switches to exponent notation, which is not embedded (\<open>None\<close>).
\<close>

definition toFixed2 :: "number \<Rightarrow> string option" where
  "toFixed2 x =
     (case x of
        NaN \<Rightarrow> Some ''NaN''
      | Infinity \<Rightarrow> Some ''Infinity''
      | Finite v \<Rightarrow>
          if v \<ge> 10 ^ 21 then None
          else
            let n = nat \<lfloor>100 * v + 1 / 2\<rfloor>;
                m = digitsOf n;
                m = (if length m \<le> 2 then replicate (3 - length m) CHR ''0'' @ m else m);
                k = length m
            in Some (take (k - 2) m @ ''.'' @ drop (k - 2) m))"

subsection \<open>validateAmount, parseAmount, formatAmount\<close>

definition isWhiteSpace :: "char \<Rightarrow> bool" where
  "isWhiteSpace c \<longleftrightarrow> c \<in> set [CHR 0x09, CHR 0x0A, CHR 0x0B, CHR 0x0C, CHR 0x0D, CHR '' '']"

text \<open>
  \<open>String.prototype.trim\<close> on ASCII white space. The other Unicode white space that
  the builtin strips, several bytes each in UTF-8, is not stripped here.
\<close>

definition trim :: "string \<Rightarrow> string" where
  "trim s = rev (dropWhile isWhiteSpace (rev (dropWhile isWhiteSpace s)))"

text \<open>
  \<open>/^\d+(\.\d{1,2})?$/\<close>: all the leading digits, at least one, and then either the end
  or a point and one or two digits up to the end.
\<close>

definition amountRegex_test :: "string \<Rightarrow> bool" where
  "amountRegex_test s =
     (let ip = takeWhile isDigit s; rest = dropWhile isDigit s
      in ip \<noteq> [] \<and>
         (case rest of
            [] \<Rightarrow> True
          | c # fp \<Rightarrow> c = CHR ''.'' \<and> list_all isDigit fp \<and> 1 \<le> length fp \<and> length fp \<le> 2))"

text \<open>The result \<open>{ valid, error? }\<close>.\<close>

datatype validation = Valid | Invalid string

definition validateAmount :: "string \<Rightarrow> validation" where
  "validateAmount amount =
     (if amount = [] \<or> trim amount = [] then Invalid ''Amount is required''
      else if \<not> amountRegex_test amount then
        Invalid ''Amount must be a positive number with maximum 2 decimal places (e.g., 123.45)''
      else
        let parsed = parseFloat amount
        in if isNaN parsed \<or> le parsed (Finite 0) then Invalid ''Amount must be greater than 0''
           else if gt parsed (binary64 (999999999999 / 100)) then Invalid ''Amount is too large''
           else Valid)"

definition parseAmount :: "string \<Rightarrow> number option" where
  "parseAmount amount =
     (case validateAmount amount of Invalid _ \<Rightarrow> None | Valid \<Rightarrow> Some (parseFloat amount))"

text \<open>
  The currency prefix of \<open>formatAmount\<close>'s template literal, byte for byte as the source
  file has it (the rupee sign decoded once too often).
\<close>

definition currencyPrefix :: string where
  "currencyPrefix = [CHR 0xC3, CHR 0xA2, CHR 0xE2, CHR 0x80, CHR 0x9A, CHR 0xC2, CHR 0xB9]"

text \<open>The argument of \<open>formatAmount\<close> is a string or a number.\<close>

datatype amount = AString string | ANumber number

definition formatAmount :: "amount \<Rightarrow> string option" where
  "formatAmount amount =
     (let num = (case amount of AString s \<Rightarrow> parseFloat s | ANumber n \<Rightarrow> n)
      in map_option (\<lambda>t. currencyPrefix @ t) (toFixed2 num))"

subsection \<open>The round trip\<close>

text \<open>
  \<open>formatAmount(parseAmount(s))\<close>. For a rejected amount \<open>parseAmount\<close> returns
  \<open>null\<close>, which has no \<open>toFixed\<close>: the call throws (\<open>None\<close>).
\<close>

definition formatParsed :: "string \<Rightarrow> string option" where
  "formatParsed s = Option.bind (parseAmount s) (\<lambda>x. formatAmount (ANumber x))"

text \<open>
  What the specification compares the result with: the amount string with its fraction
  padded to two digits, here also without the leading zeros that a number does not keep.
\<close>

definition dropZeros :: "string \<Rightarrow> string" where
  "dropZeros ds = dropWhile (\<lambda>c. c = CHR ''0'') ds"

definition stripLeadingZeros :: "string \<Rightarrow> string" where
  "stripLeadingZeros ds = (if dropZeros ds = [] then ''0'' else dropZeros ds)"

definition twoDecimals :: "string \<Rightarrow> string" where
  "twoDecimals s =
     (let ip = takeWhile isDigit s; fp = drop (length ip + 1) s
      in stripLeadingZeros ip @ ''.'' @ fp @ replicate (2 - length fp) CHR ''0'')"

section \<open>Request validation (middleware/validation.middleware.ts)\<close>

subsection \<open>JavaScript operators on values\<close>

text \<open>\<open>!v\<close> is \<open>\<not> truthy v\<close>.\<close>

fun truthy :: "jsval \<Rightarrow> bool" where
  "truthy JUndefined = False"
| "truthy JNull = False"
| "truthy (JBool b) = b"
| "truthy (JNum n) = (n \<noteq> 0)"
| "truthy (JStr s) = (s \<noteq> [])"
| "truthy (JArr _) = True"
| "truthy (JObj _) = True"

fun typeof :: "jsval \<Rightarrow> string" where
  "typeof JUndefined = ''undefined''"
| "typeof JNull = ''object''"
| "typeof (JBool _) = ''boolean''"
| "typeof (JNum _) = ''number''"
| "typeof (JStr _) = ''string''"
| "typeof (JArr _) = ''object''"
| "typeof (JObj _) = ''object''"

text \<open>Reading a property that the destructuring of \<open>req.body\<close> names.\<close>

fun getProp :: "jsval \<Rightarrow> string \<Rightarrow> jsval" where
  "getProp (JObj kvs) k = (case map_of kvs k of Some v \<Rightarrow> v | None \<Rightarrow> JUndefined)"
| "getProp _ k = JUndefined"

text \<open>\<open>Object.keys\<close>: an array's keys are its indices.\<close>

fun objectKeys :: "jsval \<Rightarrow> string list" where
  "objectKeys (JObj kvs) = map fst kvs"
| "objectKeys (JArr xs) = map digitsOf [0..<length xs]"
| "objectKeys _ = []"

text \<open>\<open>xs.join(sep)\<close>.\<close>

fun join :: "string \<Rightarrow> string list \<Rightarrow> string" where
  "join sep [] = []"
| "join sep [x] = x"
| "join sep (x # y # ys) = x @ sep @ join sep (y # ys)"

definition toLowerAscii :: "char \<Rightarrow> char" where
  "toLowerAscii c =
     (if 65 \<le> (of_char c :: nat) \<and> (of_char c :: nat) \<le> 90 then char_of ((of_char c :: nat) + 32)
      else c)"

text \<open>A regular expression that is one literal word, with the flag \<open>i\<close>, found anywhere.\<close>

fun containsWord :: "string \<Rightarrow> string \<Rightarrow> bool" where
  "containsWord w [] = (w = [])"
| "containsWord w (c # cs) =
     (take (length w) (map toLowerAscii (c # cs)) = w \<or> containsWord w cs)"

subsection \<open>validateCreateExpense\<close>

definition ALLOWED_CATEGORIES :: "string list" where
  "ALLOWED_CATEGORIES =
     [''Food'', ''Transport'', ''Entertainment'', ''Utilities'', ''Healthcare'', ''Shopping'',
      ''Other'']"

text \<open>The rupee sign U+20B9 of the ceiling message, in UTF-8.\<close>

definition rupee :: string where
  "rupee = [CHR 0xE2, CHR 0x82, CHR 0xB9]"

text \<open>
  Each block of the function pushes onto \<open>errors\<close> and reads nothing the others wrote, so
  each is a function from the field to the messages it pushes, in order.
\<close>

definition amountErrors :: "jsval \<Rightarrow> string list" where
  "amountErrors amount =
     (if amount = JNull \<or> amount = JUndefined then [''Amount is required'']
      else case amount of
        JStr a \<Rightarrow>
          (case validateAmount a of
             Invalid err \<Rightarrow> [err]
           | Valid \<Rightarrow>
               let numAmount = parseFloat a
               in if gt numAmount (binary64 10000000) then
                    [''Amount cannot exceed '' @ rupee @ ''10,000,000'']
                  else [])
      | _ \<Rightarrow> [''Amount must be a string for precision''])"

definition categoryErrors :: "jsval \<Rightarrow> string list" where
  "categoryErrors category =
     (if \<not> truthy category then [''Category is required'']
      else case category of
        JStr c \<Rightarrow>
          (let trimmedCategory = trim c
           in if trimmedCategory = [] then [''Category cannot be empty'']
              else if trimmedCategory \<notin> set ALLOWED_CATEGORIES then
                [''Category must be one of: '' @ join '', '' ALLOWED_CATEGORIES]
              else [])
      | _ \<Rightarrow> [''Category must be a string''])"

definition suspiciousPatterns_test :: "string \<Rightarrow> bool" where
  "suspiciousPatterns_test s \<longleftrightarrow>
     containsWord ''<script'' s \<or> containsWord ''javascript:'' s \<or>
     containsWord ''onerror='' s \<or> containsWord ''onclick='' s"

definition descriptionErrors :: "jsval \<Rightarrow> string list" where
  "descriptionErrors description =
     (if \<not> truthy description then [''Description is required'']
      else case description of
        JStr d \<Rightarrow>
          (let trimmedDesc = trim d
           in (if trimmedDesc = [] then [''Description cannot be empty'']
               else if length trimmedDesc < 3 then [''Description must be at least 3 characters'']
               else if length trimmedDesc > 500 then
                 [''Description must be 500 characters or less'']
               else []) @
              (if suspiciousPatterns_test trimmedDesc then
                 [''Description contains invalid characters'']
               else []))
      | _ \<Rightarrow> [''Description must be a string''])"

text \<open>\<open>/^\d{4}-\d{2}-\d{2}$/\<close>.\<close>

definition dateRegex_test :: "string \<Rightarrow> bool" where
  "dateRegex_test s \<longleftrightarrow>
     length s = 10 \<and> list_all isDigit (take 4 s) \<and> s ! 4 = CHR ''-'' \<and>
     list_all isDigit (take 2 (drop 5 s)) \<and> s ! 7 = CHR ''-'' \<and> list_all isDigit (drop 8 s)"

text \<open>
  What the date block takes from the JavaScript engine and the clock: \<open>parseDate\<close> is
  \<open>new Date(text).getTime()\<close>, \<open>None\<close> for \<open>NaN\<close> (engines differ on a day such as
  February 30), and \<open>tomorrow\<close> is the instant the block computes from \<open>new Date()\<close>, the
  start of the next local day. \<open>new Date('2000-01-01')\<close> is 946 684 800 000.
\<close>

record clock =
  parseDate :: "string \<Rightarrow> int option"
  tomorrow :: int

definition minDate :: int where
  "minDate = 946684800000"

definition dateErrors :: "clock \<Rightarrow> jsval \<Rightarrow> string list" where
  "dateErrors c date =
     (if \<not> truthy date then [''Date is required'']
      else case date of
        JStr d \<Rightarrow>
          if \<not> dateRegex_test d then [''Date must be in YYYY-MM-DD format'']
          else
            (case parseDate c (d @ ''T00:00:00Z'') of
               None \<Rightarrow> [''Date is invalid (e.g., 2026-02-30 does not exist)'']
             | Some parsedDate \<Rightarrow>
                 (if parsedDate \<ge> tomorrow c then [''Date cannot be in the future''] else []) @
                 (if parsedDate < minDate then [''Date cannot be before year 2000''] else []))
      | _ \<Rightarrow> [''Date must be a string in YYYY-MM-DD format''])"

definition allowedFields :: "string list" where
  "allowedFields = [''amount'', ''category'', ''description'', ''date'']"

definition extraFields :: "jsval \<Rightarrow> string list" where
  "extraFields b = filter (\<lambda>key. key \<notin> set allowedFields) (objectKeys b)"

definition extraErrors :: "jsval \<Rightarrow> string list" where
  "extraErrors b =
     (if length (extraFields b) > 0 then [''Unexpected fields: '' @ join '', '' (extraFields b)]
      else [])"

definition errorsOf :: "clock \<Rightarrow> jsval \<Rightarrow> string list" where
  "errorsOf c b =
     amountErrors (getProp b ''amount'') @ categoryErrors (getProp b ''category'') @
     descriptionErrors (getProp b ''description'') @ dateErrors c (getProp b ''date'') @
     extraErrors b"

text \<open>\<open>Some\<close> is the rejection the middleware sends; \<open>None\<close> is the call of \<open>next()\<close>.\<close>

definition validateCreateExpense :: "clock \<Rightarrow> jsval \<Rightarrow> reply option" where
  "validateCreateExpense c b =
     (if \<not> truthy b \<or> typeof b \<noteq> ''object'' then
        Some (Reply 400 (JObj [(''error'', JStr ''Validation Error''),
                               (''message'', JStr ''Request body is required'')]))
      else if length (errorsOf c b) > 0 then
        Some (Reply 400 (JObj [(''error'', JStr ''Validation Error''),
                               (''message'', JStr ''Invalid request data''),
                               (''details'', JArr (map JStr (errorsOf c b)))]))
      else None)"

section \<open>The handlers behind the guard\<close>

subsection \<open>errorHandler (middleware/error.middleware.ts)\<close>

text \<open>
  What a handler can pass to \<open>next(error)\<close>: a Prisma known-request error with its code,
  a Prisma validation error, or any other value, of which the handler reads the
  properties \<open>statusCode\<close> and \<open>message\<close>.
\<close>

datatype error =
    PrismaClientKnownRequestError string
  | PrismaClientValidationError
  | OtherError "nat option" "string option"

definition defaultResponse :: "nat option \<Rightarrow> string option \<Rightarrow> reply" where
  "defaultResponse sc msg =
     (let statusCode = (case sc of Some n \<Rightarrow> if n = 0 then 500 else n | None \<Rightarrow> 500);
          message = (case msg of Some m \<Rightarrow> if m = [] then ''Internal Server Error'' else m
                     | None \<Rightarrow> ''Internal Server Error'')
      in Reply statusCode
           (JObj [(''error'', JStr (if statusCode \<ge> 500 then ''Internal Server Error'' else ''Error'')),
                  (''message'',
                   JStr (if statusCode \<ge> 500 then ''An unexpected error occurred'' else message))]))"

definition errorHandler :: "error \<Rightarrow> reply" where
  "errorHandler err =
     (case err of
        PrismaClientKnownRequestError code \<Rightarrow>
          if code = ''P2002'' then
            Reply 409 (JObj [(''error'', JStr ''Conflict''),
                             (''message'', JStr ''A record with this data already exists'')])
          else if code = ''P2003'' then
            Reply 400 (JObj [(''error'', JStr ''Bad Request''),
                             (''message'', JStr ''Invalid reference in request data'')])
          else if code = ''P2025'' then
            Reply 404 (JObj [(''error'', JStr ''Not Found''),
                             (''message'', JStr ''Requested resource not found'')])
          else defaultResponse None None
      | PrismaClientValidationError \<Rightarrow>
          Reply 400 (JObj [(''error'', JStr ''Validation Error''),
                           (''message'', JStr ''Invalid data provided'')])
      | OtherError sc msg \<Rightarrow> defaultResponse sc msg)"

subsection \<open>ExpenseController.createExpense and the route\<close>

text \<open>
  \<open>expenseService.createExpense\<close> and the database behind it are a parameter: from the
  request body and the database \<open>'w\<close> to either the error it throws or the expense it
  returns, and the database afterwards.
\<close>

type_synonym 'w service = "jsval \<Rightarrow> 'w \<Rightarrow> (error + jsval) \<times> 'w"

definition createExpense :: "'w service \<Rightarrow> jsval \<Rightarrow> 'w \<Rightarrow> reply \<times> 'w" where
  "createExpense svc data w =
     (case svc data w of
        (Inr expense, w') \<Rightarrow> (Reply 201 expense, w')
      | (Inl err, w') \<Rightarrow> (errorHandler err, w'))"

text \<open>
  \<open>router.post('/expenses', idempotencyMiddleware, validateCreateExpense,
  controller.createExpense)\<close>: behind the guard, validation answers or hands on to the
  controller. The router gives this chain POST requests only.
\<close>

definition handlers :: "clock \<Rightarrow> 'w service \<Rightarrow> request \<Rightarrow> 'w \<Rightarrow> reply \<times> 'w" where
  "handlers c svc req w =
     (case validateCreateExpense c (req_body req) of
        Some rejection \<Rightarrow> (rejection, w)
      | None \<Rightarrow> createExpense svc (req_body req) w)"

definition post_expenses ::
  "env \<Rightarrow> clock \<Rightarrow> 'w service \<Rightarrow> request \<Rightarrow> 'w state \<Rightarrow> reply \<times> event list \<times> 'w state" where
  "post_expenses e c svc req s = idempotencyMiddleware e (handlers c svc req) req s"

section \<open>The client's key generator (frontend utils/idempotency.util.ts)\<close>

text \<open>\<open>v.toString(16)\<close> for a non-negative integer.\<close>

definition hexDigits :: string where
  "hexDigits = ''0123456789abcdef''"

fun toString16 :: "nat \<Rightarrow> string" where
  "toString16 n =
     (if n < 16 then [hexDigits ! n] else toString16 (n div 16) @ [hexDigits ! (n mod 16)])"

declare toString16.simps [simp del]

text \<open>
  The callback of \<open>replace\<close>, given the value \<open>u\<close> that \<open>Math.random()\<close> returned, which
  lies in \<open>[0, 1)\<close>: there \<open>(u * 16) | 0\<close> is the integer part of \<open>16 u\<close>.
\<close>

definition replacement :: "char \<Rightarrow> rat \<Rightarrow> string" where
  "replacement c u =
     (let r = nat \<lfloor>u * 16\<rfloor>;
          v = (if c = CHR ''x'' then r else (r AND 3) OR 8)
      in toString16 v)"

text \<open>
  \<open>template.replace(/[xy]/g, callback)\<close>, left to right; \<open>random i\<close> is what the
  \<open>i\<close>-th call of \<open>Math.random()\<close> returns.
\<close>

fun replaceAll :: "(nat \<Rightarrow> rat) \<Rightarrow> nat \<Rightarrow> string \<Rightarrow> string" where
  "replaceAll random i [] = []"
| "replaceAll random i (c # cs) =
     (if c = CHR ''x'' \<or> c = CHR ''y'' then replacement c (random i) @ replaceAll random (Suc i) cs
      else c # replaceAll random i cs)"

definition generateIdempotencyKey :: "(nat \<Rightarrow> rat) \<Rightarrow> string" where
  "generateIdempotencyKey random = replaceAll random 0 ''xxxxxxxx-xxxx-4xxx-yxxx-xxxxxxxxxxxx''"

text \<open>
  What \<open>replace\<close> may leave at a position of the template: a lower-case hexadecimal
  digit for \<open>x\<close>, one of \<open>8\<close>, \<open>9\<close>, \<open>a\<close>, \<open>b\<close> for \<open>y\<close>, the template's own
  character elsewhere.
\<close>

definition lowerHex :: "char \<Rightarrow> bool" where
  "lowerHex d \<longleftrightarrow> d \<in> set ''0123456789abcdef''"

definition variantDigit :: "char \<Rightarrow> bool" where
  "variantDigit d \<longleftrightarrow> d \<in> set ''89ab''"

definition filled :: "char \<Rightarrow> char \<Rightarrow> bool" where
  "filled c d \<longleftrightarrow>
     (if c = CHR ''x'' then lowerHex d else if c = CHR ''y'' then variantDigit d else d = c)"

definition keyChar :: "char \<Rightarrow> bool" where
  "keyChar c \<longleftrightarrow> c \<in> set ''0123456789abcdef-''"

section \<open>A concrete scenario\<close>

text \<open>
  The request of the specification's scenario, a service that stores one more expense on
  every call and one that always throws, a store that answers every call, and a clock on
  2026-01-15 (1 768 435 200 000 ms).
\<close>

definition sampleKey :: string where
  "sampleKey = ''11111111-1111-4111-8111-111111111111''"

definition sampleBody :: jsval where
  "sampleBody =
     JObj [(''amount'', JStr ''99.99''), (''category'', JStr ''Food''),
           (''description'', JStr ''Lunch''), (''date'', JStr ''2026-01-15'')]"

definition sampleRequest :: request where
  "sampleRequest = \<lparr>http_method = ''POST'', idempotency_key = Some sampleKey, req_body = sampleBody\<rparr>"

definition sampleExpense :: jsval where
  "sampleExpense =
     JObj [(''id'', JStr ''7d0c''), (''amount'', JStr ''99.99''), (''category'', JStr ''Food''),
           (''description'', JStr ''Lunch''), (''date'', JStr ''2026-01-15''),
           (''createdAt'', JStr ''2026-01-15T10:00:00.000Z''),
           (''updatedAt'', JStr ''2026-01-15T10:00:00.000Z'')]"

definition sampleService :: "nat service" where
  "sampleService data w = (Inr sampleExpense, Suc w)"

definition failingService :: "nat service" where
  "failingService data w = (Inl (OtherError None None), w)"

definition sampleClock :: clock where
  "sampleClock = \<lparr>parseDate = (\<lambda>text. Some 1768435200000), tomorrow = 1768521600000\<rparr>"

definition calm :: "int \<Rightarrow> env" where
  "calm t =
     \<lparr>now_lookup = t, now_intercept = t, db_now = t, findUnique_fails = False,
      delete_fails = False, create_fails = False, racing = (\<lambda>st. st)\<rparr>"

definition emptyState :: "nat state" where
  "emptyState = \<lparr>idempotencyStore = Map.empty, world = 0\<rparr>"

text \<open>A state whose store holds a row for \<open>sampleKey\<close> that expired at time 100.\<close>

definition staleState :: "nat state" where
  "staleState =
     \<lparr>idempotencyStore =
        [sampleKey \<mapsto> \<lparr>key = sampleKey, response = sampleExpense, createdAt = 0, expiresAt = 100\<rparr>],
      world = 1\<rparr>"


section \<open>Properties of the money functions\<close>

subsection \<open>Rounding to binary64\<close>


lemma roundTiesToEven_near: "\<bar>of_int (roundTiesToEven x) - x\<bar> \<le> 1 / 2"
proof -
  have "of_int \<lfloor>x\<rfloor> \<le> x" "x < of_int \<lfloor>x\<rfloor> + 1" by linarith+
  then show ?thesis
    by (auto simp: roundTiesToEven_def Let_def abs_le_iff)
qed

text \<open>\<open>ilog2\<close> is the exponent of the leading bit.\<close>

lemma ilog2_bounds:
  assumes "0 < q"
  shows "2 powi ilog2 q \<le> q \<and> q < 2 powi (ilog2 q + 1)"
proof -
  obtain a b where ab: "quotient_of q = (a, b)" by (cases "quotient_of q")
  then have b: "0 < b" and q: "q = of_int a / of_int b"
    by (auto dest: quotient_of_denom_pos quotient_of_div)
  from assms q b have a: "0 < a" by (simp add: zero_less_divide_iff)
  define la lb where "la = bitlen a" and "lb = bitlen b"
  have la: "1 \<le> la" "2 ^ nat (la - 1) \<le> a" "a < 2 ^ nat la"
    using bitlen_bounds [OF a] a by (auto simp: la_def bitlen_alt_def)
  have lb: "1 \<le> lb" "2 ^ nat (lb - 1) \<le> b" "b < 2 ^ nat lb"
    using bitlen_bounds [OF b] b by (auto simp: lb_def bitlen_alt_def)
  have ra: "(2::rat) powi (la - 1) \<le> of_int a" "of_int a < (2::rat) powi la"
  proof -
    have "(of_int (2 ^ nat (la - 1)) :: rat) \<le> of_int a" using la(2) by (simp only: of_int_le_iff)
    then show "(2::rat) powi (la - 1) \<le> of_int a" using la(1) by (simp add: power_int_def)
    have "(of_int a :: rat) < of_int (2 ^ nat la)" using la(3) by (simp only: of_int_less_iff)
    then show "of_int a < (2::rat) powi la" using la(1) by (simp add: power_int_def)
  qed
  have rb: "(2::rat) powi (lb - 1) \<le> of_int b" "of_int b < (2::rat) powi lb"
  proof -
    have "(of_int (2 ^ nat (lb - 1)) :: rat) \<le> of_int b" using lb(2) by (simp only: of_int_le_iff)
    then show "(2::rat) powi (lb - 1) \<le> of_int b" using lb(1) by (simp add: power_int_def)
    have "(of_int b :: rat) < of_int (2 ^ nat lb)" using lb(3) by (simp only: of_int_less_iff)
    then show "of_int b < (2::rat) powi lb" using lb(1) by (simp add: power_int_def)
  qed
  have bpos: "(0::rat) < of_int b" using b by simp
  have up: "q < 2 powi (la - lb + 1)"
  proof -
    have "of_int a < (2::rat) powi (la - lb + 1) * 2 powi (lb - 1)"
      using ra(2) by (simp add: power_int_add [symmetric])
    also have "\<dots> \<le> 2 powi (la - lb + 1) * of_int b"
      using rb(1) by (intro mult_left_mono) auto
    finally show ?thesis using bpos by (simp add: q pos_divide_less_eq)
  qed
  have low: "2 powi (la - lb - 1) < q"
  proof -
    have "(2::rat) powi (la - lb - 1) * of_int b < 2 powi (la - lb - 1) * 2 powi lb"
      using rb(2) by (intro mult_strict_left_mono) auto
    also have "\<dots> = 2 powi (la - 1)" by (simp add: power_int_add [symmetric])
    also have "\<dots> \<le> of_int a" by (rule ra(1))
    finally show ?thesis using bpos by (simp add: q pos_less_divide_eq)
  qed
  have k: "ilog2 q = (if 2 powi (la - lb) \<le> q then la - lb else la - lb - 1)"
    by (simp add: ilog2_def ab la_def lb_def Let_def)
  show ?thesis
  proof (cases "2 powi (la - lb) \<le> q")
    case True
    then show ?thesis using up k by simp
  next
    case False
    then show ?thesis using low k by (simp add: not_le less_imp_le)
  qed
qed

text \<open>
  From the smallest normal number on, rounding moves a value by at most the fraction
  \<open>2^-53\<close> of itself.
\<close>

lemma binary64_rounds:
  assumes lo: "2 powi (- 1022) \<le> q"
  shows "\<exists>v. \<bar>v - q\<bar> \<le> q / 2 ^ 53 \<and>
              binary64 q = (if 2 ^ 1024 \<le> v then Infinity else Finite v)"
proof -
  have qpos: "0 < q"
  proof -
    have "(0::rat) < 2 powi (- 1022)" by (rule zero_less_power_int) simp
    with lo show ?thesis by linarith
  qed
  define k where "k = ilog2 q"
  have kb: "2 powi k \<le> q" "q < 2 powi (k + 1)"
    using ilog2_bounds [OF qpos] by (simp_all add: k_def)
  have k_lo: "- 1022 < k + 1"
  proof (rule ccontr)
    assume "\<not> - 1022 < k + 1"
    then have "k + 1 \<le> - 1022" by simp
    then have "(2::rat) powi (k + 1) \<le> 2 powi (- 1022)"
      by (intro power_int_increasing) auto
    with lo kb(2) show False by linarith
  qed
  then have e: "max (k - 52) (- 1074) = k - 52" by simp
  define p :: rat where "p = 2 powi (k - 52)"
  have ppos: "0 < p" unfolding p_def by (rule zero_less_power_int) simp
  have pk: "p * 2 ^ 52 = 2 powi k"
  proof -
    have "p * 2 powi 52 = 2 powi k"
      unfolding p_def using power_int_add [of "2::rat" "k - 52" 52] by simp
    then show ?thesis by simp
  qed
  define m where "m = roundTiesToEven (q / p)"
  define v where "v = of_int m * p"
  have "\<bar>of_int m - q / p\<bar> \<le> 1 / 2" unfolding m_def by (rule roundTiesToEven_near)
  then have "\<bar>of_int m - q / p\<bar> * p \<le> 1 / 2 * p"
    using ppos by (intro mult_right_mono) auto
  moreover have "\<bar>of_int m - q / p\<bar> * p = \<bar>v - q\<bar>"
  proof -
    have "\<bar>of_int m - q / p\<bar> * p = \<bar>(of_int m - q / p) * p\<bar>"
      using ppos by (simp add: abs_mult)
    also have "(of_int m - q / p) * p = v - q"
      using ppos by (simp add: v_def left_diff_distrib)
    finally show ?thesis .
  qed
  ultimately have near: "\<bar>v - q\<bar> \<le> p / 2" by simp
  have "p * 2 ^ 52 \<le> q" using pk kb(1) by simp
  then have "p \<le> q / 2 ^ 52" by (simp add: pos_le_divide_eq)
  then have p_le: "p / 2 \<le> q / 2 ^ 53" by simp
  from near p_le have close: "\<bar>v - q\<bar> \<le> q / 2 ^ 53" by linarith
  have "binary64 q = (if 2 ^ 1024 \<le> v then Infinity else Finite v)"
    using qpos by (simp add: binary64_def Let_def e k_def [symmetric] v_def m_def p_def)
  with close show ?thesis by blast
qed

lemma binary64_near:
  assumes lo: "2 powi (- 1022) \<le> q" and hi: "q < 2 ^ 1023"
  shows "\<exists>v. binary64 q = Finite v \<and> \<bar>v - q\<bar> \<le> q / 2 ^ 53"
proof -
  from binary64_rounds [OF lo] obtain v where
    v: "\<bar>v - q\<bar> \<le> q / 2 ^ 53" "binary64 q = (if 2 ^ 1024 \<le> v then Infinity else Finite v)"
    by blast
  have "(0::rat) < 2 powi (- 1022)" by (rule zero_less_power_int) simp
  with lo have qpos: "0 < q" by linarith
  then have "q / 2 ^ 53 \<le> q" by (simp add: pos_divide_le_eq)
  with v(1) have "v \<le> 2 * q" by linarith
  also have "\<dots> < 2 * 2 ^ 1023" using hi by simp
  finally have "\<not> 2 ^ 1024 \<le> v" by simp
  with v show ?thesis by auto
qed

lemma tiny_le: "(1::rat) / 100 \<le> q \<Longrightarrow> 2 powi (- 1022) \<le> q"
proof -
  assume q: "(1::rat) / 100 \<le> q"
  have "(2::rat) powi (- 1022) \<le> 2 powi (- 7)" by (intro power_int_increasing) auto
  also have "\<dots> \<le> 1 / 100" by (simp add: power_int_minus_divide)
  finally show ?thesis using q by linarith
qed

lemma huge_less: "q < (10000000000000::rat) \<Longrightarrow> q < 2 ^ 1023"
proof -
  assume q: "q < (10000000000000::rat)"
  have "(10000000000000::rat) \<le> 2 ^ 44" by simp
  also have "\<dots> \<le> 2 ^ 1023" by (intro power_increasing) auto
  finally show ?thesis using q by linarith
qed

lemma binary64_positive:
  assumes "(1::rat) / 100 \<le> q"
  shows "\<not> le (binary64 q) (Finite 0)"
proof -
  from binary64_rounds [OF tiny_le [OF assms]] obtain v where
    v: "\<bar>v - q\<bar> \<le> q / 2 ^ 53" "binary64 q = (if 2 ^ 1024 \<le> v then Infinity else Finite v)"
    by blast
  have "q / 2 ^ 53 < q" using assms by (simp add: pos_divide_less_eq)
  with v(1) have "0 < v" by linarith
  with v(2) show ?thesis by simp
qed

text \<open>
  Two amounts at least half a cent apart, the smaller below \<open>10^13\<close>, compare as their
  roundings do.
\<close>

lemma binary64_gt:
  assumes "(1::rat) / 100 \<le> b" "b + 1 / 200 \<le> a" "b < 10000000000000"
  shows "gt (binary64 a) (binary64 b)"
proof -
  have a_lo: "(1::rat) / 100 \<le> a" using assms by linarith
  from binary64_rounds [OF tiny_le [OF a_lo]] obtain v where
    v: "\<bar>v - a\<bar> \<le> a / 2 ^ 53" "binary64 a = (if 2 ^ 1024 \<le> v then Infinity else Finite v)"
    by blast
  from binary64_near [OF tiny_le [OF assms(1)] huge_less [OF assms(3)]] obtain w where
    w: "binary64 b = Finite w" "\<bar>w - b\<bar> \<le> b / 2 ^ 53"
    by blast
  have "a - v \<le> a / 2 ^ 53" "w - b \<le> b / 2 ^ 53" using v(1) w(2) by linarith+
  then have "a - v \<le> a / 9007199254740992" "w - b \<le> b / 9007199254740992" by simp_all
  then have "w < v" using assms by linarith
  with v(2) w(1) show ?thesis by simp
qed

lemma binary64_not_gt:
  assumes "(1::rat) / 100 \<le> a" "a + 1 / 200 \<le> b" "b < 10000000000000"
  shows "\<not> gt (binary64 a) (binary64 b)"
proof -
  have b_lo: "(1::rat) / 100 \<le> b" and a_hi: "a < 10000000000000" using assms by linarith+
  from binary64_near [OF tiny_le [OF assms(1)] huge_less [OF a_hi]] obtain v where
    v: "binary64 a = Finite v" "\<bar>v - a\<bar> \<le> a / 2 ^ 53"
    by blast
  from binary64_near [OF tiny_le [OF b_lo] huge_less [OF assms(3)]] obtain w where
    w: "binary64 b = Finite w" "\<bar>w - b\<bar> \<le> b / 2 ^ 53"
    by blast
  have "v - a \<le> a / 2 ^ 53" "b - w \<le> b / 2 ^ 53" using v(2) w(2) by linarith+
  then have "v - a \<le> a / 9007199254740992" "b - w \<le> b / 9007199254740992" by simp_all
  then have "v < w" using assms by linarith
  with v(1) w(1) show ?thesis by simp
qed

lemma gt_irrefl: "\<not> gt x x"
  by (cases x) auto


subsection \<open>The scenario's request passes validation\<close>

lemma parseFloat_sample: "parseFloat ''99.99'' = binary64 (9999 / 100)"
  by (simp add: parseFloat_def isDigit_def digitsValue_def digitValue_def)

lemma sample_amount_ok: "amountErrors (JStr ''99.99'') = []"
proof -
  have "\<not> le (binary64 (9999 / 100)) (Finite 0)"
    by (rule binary64_positive) simp
  moreover have "\<not> gt (binary64 (9999 / 100)) (binary64 (999999999999 / 100))"
    by (rule binary64_not_gt) simp_all
  moreover have "\<not> gt (binary64 (9999 / 100)) (binary64 10000000)"
    by (rule binary64_not_gt) simp_all
  moreover have "binary64 (9999 / 100) \<noteq> NaN"
    using binary64_near [of "9999 / 100"] tiny_le [of "9999 / 100"] huge_less [of "9999 / 100"]
    by auto
  moreover have "amountRegex_test ''99.99''" by (simp add: amountRegex_test_def isDigit_def)
  moreover have "trim ''99.99'' \<noteq> []" by (simp add: trim_def isWhiteSpace_def)
  ultimately show ?thesis
    by (simp add: amountErrors_def validateAmount_def parseFloat_sample isNaN_def)
qed

lemma sample_category_ok: "categoryErrors (JStr ''Food'') = []"
  by (simp add: categoryErrors_def trim_def isWhiteSpace_def ALLOWED_CATEGORIES_def)

lemma sample_description_ok: "descriptionErrors (JStr ''Lunch'') = []"
  by (simp add: descriptionErrors_def trim_def isWhiteSpace_def suspiciousPatterns_test_def
      toLowerAscii_def)

lemma sample_date_ok: "dateErrors sampleClock (JStr ''2026-01-15'') = []"
  by (simp add: dateErrors_def dateRegex_test_def isDigit_def sampleClock_def minDate_def)

lemma sample_body_valid: "validateCreateExpense sampleClock sampleBody = None"
  by (simp add: validateCreateExpense_def errorsOf_def sampleBody_def sample_amount_ok
      sample_category_ok sample_description_ok sample_date_ok extraErrors_def extraFields_def
      allowedFields_def)


subsection \<open>The boundary amounts\<close>

lemma parseFloat_values:
  "parseFloat ''0.00'' = Finite 0"
  "parseFloat ''0.01'' = binary64 (1 / 100)"
  "parseFloat ''10000001'' = binary64 10000001"
  "parseFloat ''10000000.00'' = binary64 10000000"
  by (simp_all add: parseFloat_def isDigit_def digitsValue_def digitValue_def binary64_def)

lemma binary64_finite: "1 / 100 \<le> q \<Longrightarrow> q < 10000000000000 \<Longrightarrow> \<not> isNaN (binary64 q)"
  using binary64_near [of q] tiny_le [of q] huge_less [of q] by (auto simp: isNaN_def)

text \<open>
  C4, as stated, fails: the four rejected amounts do not get four distinct reasons.
  \<open>-1.00\<close> and \<open>1.234\<close> both fail the one format test and get the same message.
\<close>

theorem format_reason_is_shared:
  "amountErrors (JStr ''-1.00'') =
     [''Amount must be a positive number with maximum 2 decimal places (e.g., 123.45)''] \<and>
   amountErrors (JStr ''1.234'') =
     [''Amount must be a positive number with maximum 2 decimal places (e.g., 123.45)'']"
  by (simp add: amountErrors_def validateAmount_def trim_def isWhiteSpace_def
      amountRegex_test_def isDigit_def)

text \<open>
  C4, amended. The amount block of \<open>validateCreateExpense\<close> (\<open>validateAmount\<close> and
  then the ceiling of 10,000,000) rejects \<open>0.00\<close> as not greater than 0, rejects
  \<open>-1.00\<close> and \<open>1.234\<close> with the same format message, and rejects \<open>10000001\<close>,
  which \<open>validateAmount\<close> alone accepts under its ceiling of 9,999,999,999.99, for
  exceeding 10,000,000; the three messages differ. It accepts \<open>0.01\<close> and
  \<open>10000000.00\<close>.
\<close>

theorem amount_boundary:
  "amountErrors (JStr ''0.00'') = [''Amount must be greater than 0''] \<and>
   amountErrors (JStr ''-1.00'') =
     [''Amount must be a positive number with maximum 2 decimal places (e.g., 123.45)''] \<and>
   amountErrors (JStr ''1.234'') =
     [''Amount must be a positive number with maximum 2 decimal places (e.g., 123.45)''] \<and>
   validateAmount ''10000001'' = Valid \<and>
   amountErrors (JStr ''10000001'') = [''Amount cannot exceed '' @ rupee @ ''10,000,000''] \<and>
   amountErrors (JStr ''0.01'') = [] \<and>
   amountErrors (JStr ''10000000.00'') = [] \<and>
   distinct [''Amount must be greater than 0'',
             ''Amount must be a positive number with maximum 2 decimal places (e.g., 123.45)'',
             ''Amount cannot exceed '' @ rupee @ ''10,000,000'']"
proof -
  have shape: "trim ''0.00'' \<noteq> []" "trim ''0.01'' \<noteq> []" "trim ''10000001'' \<noteq> []"
    "trim ''10000000.00'' \<noteq> []" "trim ''-1.00'' \<noteq> []" "trim ''1.234'' \<noteq> []"
    "amountRegex_test ''0.00''" "amountRegex_test ''0.01''" "amountRegex_test ''10000001''"
    "amountRegex_test ''10000000.00''" "\<not> amountRegex_test ''-1.00''"
    "\<not> amountRegex_test ''1.234''"
    by (simp_all add: trim_def isWhiteSpace_def amountRegex_test_def isDigit_def)
  have zero: "validateAmount ''0.00'' = Invalid ''Amount must be greater than 0''"
    by (simp add: validateAmount_def shape parseFloat_values isNaN_def)
  have cent: "validateAmount ''0.01'' = Valid"
  proof -
    have "\<not> le (binary64 (1 / 100)) (Finite 0)" by (rule binary64_positive) simp
    moreover have "\<not> gt (binary64 (1 / 100)) (binary64 (999999999999 / 100))"
      by (rule binary64_not_gt) simp_all
    moreover have "\<not> isNaN (binary64 (1 / 100))" by (rule binary64_finite) simp_all
    ultimately show ?thesis by (simp add: validateAmount_def shape parseFloat_values)
  qed
  have over: "validateAmount ''10000001'' = Valid"
  proof -
    have "\<not> le (binary64 10000001) (Finite 0)" by (rule binary64_positive) simp
    moreover have "\<not> gt (binary64 10000001) (binary64 (999999999999 / 100))"
      by (rule binary64_not_gt) simp_all
    moreover have "\<not> isNaN (binary64 10000001)" by (rule binary64_finite) simp_all
    ultimately show ?thesis by (simp add: validateAmount_def shape parseFloat_values)
  qed
  have ceiling: "validateAmount ''10000000.00'' = Valid"
  proof -
    have "\<not> le (binary64 10000000) (Finite 0)" by (rule binary64_positive) simp
    moreover have "\<not> gt (binary64 10000000) (binary64 (999999999999 / 100))"
      by (rule binary64_not_gt) simp_all
    moreover have "\<not> isNaN (binary64 10000000)" by (rule binary64_finite) simp_all
    ultimately show ?thesis by (simp add: validateAmount_def shape parseFloat_values)
  qed
  have above: "gt (binary64 10000001) (binary64 10000000)"
    by (rule binary64_gt) simp_all
  have below: "\<not> gt (binary64 (1 / 100)) (binary64 10000000)"
    by (rule binary64_not_gt) simp_all
  have "amountErrors (JStr ''0.00'') = [''Amount must be greater than 0'']"
    by (simp add: amountErrors_def zero)
  moreover have "amountErrors (JStr ''10000001'') =
      [''Amount cannot exceed '' @ rupee @ ''10,000,000'']"
    by (simp add: amountErrors_def over parseFloat_values above)
  moreover have "amountErrors (JStr ''0.01'') = []"
    by (simp add: amountErrors_def cent parseFloat_values below)
  moreover have "amountErrors (JStr ''10000000.00'') = []"
    by (simp add: amountErrors_def ceiling parseFloat_values gt_irrefl)
  moreover have "distinct [''Amount must be greater than 0'',
             ''Amount must be a positive number with maximum 2 decimal places (e.g., 123.45)'',
             ''Amount cannot exceed '' @ rupee @ ''10,000,000'']"
    by simp
  moreover have "amountErrors (JStr ''-1.00'') =
     [''Amount must be a positive number with maximum 2 decimal places (e.g., 123.45)'']"
    "amountErrors (JStr ''1.234'') =
     [''Amount must be a positive number with maximum 2 decimal places (e.g., 123.45)'']"
    by (simp_all add: amountErrors_def validateAmount_def shape)
  ultimately show ?thesis using over by simp
qed


subsection \<open>Parsing and formatting an accepted amount\<close>

lemma digit_cases:
  "isDigit c \<longleftrightarrow> c = CHR ''0'' \<or> c = CHR ''1'' \<or> c = CHR ''2'' \<or> c = CHR ''3'' \<or> c = CHR ''4'' \<or>
     c = CHR ''5'' \<or> c = CHR ''6'' \<or> c = CHR ''7'' \<or> c = CHR ''8'' \<or> c = CHR ''9''"
  by (simp add: isDigit_def)

lemma digitChar_values:
  "digitChar 0 = CHR ''0''" "digitChar 1 = CHR ''1''" "digitChar 2 = CHR ''2''"
  "digitChar 3 = CHR ''3''" "digitChar 4 = CHR ''4''" "digitChar 5 = CHR ''5''"
  "digitChar 6 = CHR ''6''" "digitChar 7 = CHR ''7''" "digitChar 8 = CHR ''8''"
  "digitChar 9 = CHR ''9''"
  by code_simp+

lemma digitValue_values:
  "digitValue CHR ''0'' = 0" "digitValue CHR ''1'' = 1" "digitValue CHR ''2'' = 2"
  "digitValue CHR ''3'' = 3" "digitValue CHR ''4'' = 4" "digitValue CHR ''5'' = 5"
  "digitValue CHR ''6'' = 6" "digitValue CHR ''7'' = 7" "digitValue CHR ''8'' = 8"
  "digitValue CHR ''9'' = 9"
  by (simp_all add: digitValue_def)

lemma digit_round_trip:
  assumes "isDigit c"
  shows "digitValue c < 10" "digitChar (digitValue c) = c" "digitValue c = 0 \<longleftrightarrow> c = CHR ''0''"
proof -
  have one: "digitChar (Suc 0) = CHR ''1''" using digitChar_values(2) by simp
  show "digitValue c < 10" "digitChar (digitValue c) = c" "digitValue c = 0 \<longleftrightarrow> c = CHR ''0''"
    using assms unfolding digit_cases
    by (auto simp: digitValue_values digitChar_values one)
qed

lemma digitsValue_snoc: "digitsValue (ds @ [d]) = 10 * digitsValue ds + digitValue d"
  by (simp add: digitsValue_def)

lemma digitsValue_append:
  "digitsValue (xs @ ys) = digitsValue xs * 10 ^ length ys + digitsValue ys"
proof (induction ys rule: rev_induct)
  case Nil
  show ?case by (simp add: digitsValue_def)
next
  case (snoc y ys)
  have "digitsValue (xs @ ys @ [y]) = 10 * digitsValue (xs @ ys) + digitValue y"
    using digitsValue_snoc [of "xs @ ys" y] by simp
  then show ?case by (simp add: snoc digitsValue_snoc algebra_simps)
qed

lemma digitsOf_digit: "n < 10 \<Longrightarrow> digitsOf n = [digitChar n]"
  by (simp add: digitsOf.simps)

lemma digitsOf_snoc:
  assumes "0 < n" "d < 10"
  shows "digitsOf (10 * n + d) = digitsOf n @ [digitChar d]"
proof -
  have "\<not> 10 * n + d < 10" using assms by simp
  moreover have "(10 * n + d) div 10 = n" "(10 * n + d) mod 10 = d" using assms by simp_all
  ultimately show ?thesis by (subst digitsOf.simps) simp
qed


lemma dropZeros_snoc:
  "dropZeros (ds @ [d]) =
     (if dropZeros ds = [] then (if d = CHR ''0'' then [] else [d]) else dropZeros ds @ [d])"
proof (cases "dropZeros ds = []")
  case True
  then have "\<And>x. x \<in> set ds \<Longrightarrow> x = CHR ''0''"
    by (simp add: dropZeros_def dropWhile_eq_Nil_conv)
  then have "dropWhile (\<lambda>c. c = CHR ''0'') (ds @ [d]) = dropWhile (\<lambda>c. c = CHR ''0'') [d]"
    by (rule dropWhile_append2)
  with True show ?thesis by (simp add: dropZeros_def)
next
  case False
  then obtain x where x: "x \<in> set ds" "\<not> x = CHR ''0''"
    by (auto simp: dropZeros_def dropWhile_eq_Nil_conv)
  have "dropWhile (\<lambda>c. c = CHR ''0'') (ds @ [d]) = dropWhile (\<lambda>c. c = CHR ''0'') ds @ [d]"
    using dropWhile_append1 [where P = "\<lambda>c. c = CHR ''0''" and x = x and xs = ds and ys = "[d]"] x
    by simp
  with False show ?thesis by (simp add: dropZeros_def)
qed

lemma digitsOf_digitsValue:
  assumes "list_all isDigit ds"
  shows "(dropZeros ds = [] \<longrightarrow> digitsValue ds = 0) \<and>
         (dropZeros ds \<noteq> [] \<longrightarrow> 0 < digitsValue ds \<and> digitsOf (digitsValue ds) = dropZeros ds)"
  using assms
proof (induction ds rule: rev_induct)
  case Nil
  show ?case by (simp add: digitsValue_def dropZeros_def)
next
  case (snoc d ds)
  then have d: "isDigit d" and ds: "list_all isDigit ds" by simp_all
  note ih = snoc.IH [OF ds]
  show ?case
  proof (cases "dropZeros ds = []")
    case True
    with ih have v: "digitsValue (ds @ [d]) = digitValue d" by (simp add: digitsValue_snoc)
    show ?thesis
    proof (cases "d = CHR ''0''")
      case zero: True
      with True v show ?thesis by (simp add: dropZeros_snoc digitValue_values)
    next
      case False
      with True v digit_round_trip [OF d] show ?thesis
        by (simp add: dropZeros_snoc digitsOf_digit)
    qed
  next
    case False
    with ih have pos: "0 < digitsValue ds" and eq: "digitsOf (digitsValue ds) = dropZeros ds"
      by simp_all
    show ?thesis
      using False digit_round_trip(1) [OF d] pos digit_round_trip(2) [OF d]
      by (simp add: dropZeros_snoc digitsValue_snoc digitsOf_snoc eq)
  qed
qed

lemma digitsOf_strip:
  assumes "list_all isDigit ds"
  shows "digitsOf (digitsValue ds) = stripLeadingZeros ds"
proof (cases "dropZeros ds = []")
  case True
  with digitsOf_digitsValue [OF assms] show ?thesis
    by (simp add: stripLeadingZeros_def digitsOf_digit digitChar_values)
next
  case False
  with digitsOf_digitsValue [OF assms] show ?thesis
    by (simp add: stripLeadingZeros_def)
qed


lemma digitsOf_nonempty: "digitsOf n \<noteq> []"
  by (subst digitsOf.simps) simp

lemma digitsOf_hundreds:
  assumes "100 \<le> c"
  shows "digitsOf c = digitsOf (c div 100) @ [digitChar (c div 10 mod 10), digitChar (c mod 10)]"
proof -
  have "\<not> c < 10" "\<not> c div 10 < 10" using assms by simp_all
  then have "digitsOf c = digitsOf (c div 10) @ [digitChar (c mod 10)]"
    "digitsOf (c div 10) = digitsOf (c div 10 div 10) @ [digitChar (c div 10 mod 10)]"
    by (subst digitsOf.simps, simp)+
  moreover have "c div 10 div 10 = c div 100" by (simp add: div_mult2_eq [symmetric])
  ultimately show ?thesis by simp
qed

text \<open>The digits \<open>toFixed(2)\<close> prints for the integer \<open>c\<close> of hundredths.\<close>

lemma point_before_last_two:
  "(let m = digitsOf c;
        m = (if length m \<le> 2 then replicate (3 - length m) CHR ''0'' @ m else m);
        k = length m
    in take (k - 2) m @ ''.'' @ drop (k - 2) m) =
   digitsOf (c div 100) @ ''.'' @ [digitChar (c div 10 mod 10), digitChar (c mod 10)]"
proof -
  consider "c < 10" | "10 \<le> c" "c < 100" | "100 \<le> c" by linarith
  then show ?thesis
  proof cases
    case 1
    then have "digitsOf c = [digitChar c]" "c div 100 = 0" "c div 10 = 0" "c mod 10 = c"
      by (simp_all add: digitsOf_digit)
    then show ?thesis by (simp add: digitsOf_digit digitChar_values numeral_2_eq_2)
  next
    case 2
    then have "\<not> c < 10" "c div 10 < 10" by simp_all
    then have "digitsOf c = [digitChar (c div 10), digitChar (c mod 10)]"
      by (subst digitsOf.simps) (simp add: digitsOf_digit)
    moreover have "c div 100 = 0" "c div 10 mod 10 = c div 10" using 2 by simp_all
    ultimately show ?thesis by (simp add: digitsOf_digit digitChar_values)
  next
    case 3
    have "length (digitsOf (c div 100)) \<noteq> 0" using digitsOf_nonempty by simp
    then show ?thesis by (simp add: digitsOf_hundreds [OF 3] Let_def)
  qed
qed

lemma toFixed2_cents:
  assumes near: "\<bar>v - of_nat c / 100\<bar> \<le> of_nat c / 100 / 2 ^ 53"
    and c: "c < 1000000000000"
  shows "toFixed2 (Finite v) =
    Some (digitsOf (c div 100) @ ''.'' @ [digitChar (c div 10 mod 10), digitChar (c mod 10)])"
proof -
  define x :: rat where "x = of_nat c"
  have "(of_nat c :: rat) < of_nat 1000000000000" using c by (simp only: of_nat_less_iff)
  then have x: "0 \<le> x" "x < 1000000000000" by (simp_all add: x_def)
  have p: "(2::rat) ^ 53 = 9007199254740992" by simp
  have "\<bar>v - x / 100\<bar> \<le> x / 100 / 9007199254740992"
    using near by (simp only: x_def p)
  then have b: "v - x / 100 \<le> x / 900719925474099200" "x / 100 - v \<le> x / 900719925474099200"
    by linarith+
  have "\<lfloor>100 * v + 1 / 2\<rfloor> = int c"
  proof (rule floor_unique)
    show "of_int (int c) \<le> 100 * v + 1 / 2" using b x by (simp add: x_def [symmetric]; linarith)
    show "100 * v + 1 / 2 < of_int (int c) + 1" using b x by (simp add: x_def [symmetric]; linarith)
  qed
  then have n: "nat \<lfloor>100 * v + 1 / 2\<rfloor> = c" by simp
  have small: "\<not> 10 ^ 21 \<le> v" using b x by (simp; linarith)
  have "toFixed2 (Finite v) =
      Some (let m = digitsOf c;
                m = (if length m \<le> 2 then replicate (3 - length m) CHR ''0'' @ m else m);
                k = length m
            in take (k - 2) m @ ''.'' @ drop (k - 2) m)"
    using small by (simp add: toFixed2_def n Let_def)
  then show ?thesis by (simp only: point_before_last_two)
qed


lemma amount_shape:
  assumes "amountRegex_test s"
  obtains ip fp where "ip \<noteq> []" "list_all isDigit ip" "list_all isDigit fp" "length fp \<le> 2"
    "takeWhile isDigit s = ip" "dropWhile isDigit s = (if fp = [] then [] else CHR ''.'' # fp)"
proof -
  have digits: "list_all isDigit (takeWhile isDigit s)"
    by (auto simp: list_all_iff dest: set_takeWhileD)
  show thesis
  proof (cases "dropWhile isDigit s")
    case Nil
    with assms digits that [of "takeWhile isDigit s" "[]"] show thesis
      by (simp add: amountRegex_test_def)
  next
    case (Cons c r)
    with assms have "c = CHR ''.''" "list_all isDigit r" "1 \<le> length r" "length r \<le> 2"
      "takeWhile isDigit s \<noteq> []"
      by (simp_all add: amountRegex_test_def)
    moreover from \<open>1 \<le> length r\<close> have "r \<noteq> []" by auto
    ultimately show thesis using Cons digits that [of "takeWhile isDigit s" r] by simp
  qed
qed

lemma parseFloat_shape:
  assumes "ip \<noteq> []" "list_all isDigit fp" "takeWhile isDigit s = ip"
    "dropWhile isDigit s = (if fp = [] then [] else CHR ''.'' # fp)"
  shows "parseFloat s = binary64 (of_nat (digitsValue (ip @ fp)) / 10 ^ length fp)"
proof -
  have tw: "takeWhile isDigit fp = fp"
    using assms(2) by (simp add: takeWhile_eq_all_conv list_all_iff)
  show ?thesis
  proof (cases "fp = []")
    case True
    with assms(4) have dw: "dropWhile isDigit s = []" by simp
    show ?thesis unfolding parseFloat_def assms(3) dw using assms(1) True by simp
  next
    case False
    with assms(4) have dw: "dropWhile isDigit s = CHR ''.'' # fp" by simp
    show ?thesis unfolding parseFloat_def assms(3) dw using assms(1) by (simp add: tw)
  qed
qed

lemma base10:
  fixes x d :: nat
  assumes "d < 10"
  shows "(x * 10 + d) div 10 = x" "(x * 10 + d) mod 10 = d"
  using assms by simp_all

text \<open>The amount in hundredths, and how its digits relate to the string's.\<close>

lemma hundredths:
  assumes fp: "list_all isDigit fp" "length fp \<le> 2"
    and c_def: "c = digitsValue (ip @ fp) * 10 ^ (2 - length fp)"
  shows "(of_nat (digitsValue (ip @ fp)) :: rat) / 10 ^ length fp = of_nat c / 100"
    and "c div 100 = digitsValue ip"
    and "[digitChar (c div 10 mod 10), digitChar (c mod 10)] = fp @ replicate (2 - length fp) CHR ''0''"
proof -
  consider "fp = []" | a where "fp = [a]" | a b where "fp = [a, b]"
    using fp(2) by (cases fp rule: list.exhaust; simp; case_tac x22; simp; case_tac x22a; simp)
  then have "(of_nat (digitsValue (ip @ fp)) :: rat) / 10 ^ length fp = of_nat c / 100 \<and>
     c div 100 = digitsValue ip \<and>
     [digitChar (c div 10 mod 10), digitChar (c mod 10)] = fp @ replicate (2 - length fp) CHR ''0''"
  proof cases
    case 1
    then show ?thesis by (simp add: c_def digitChar_values numeral_2_eq_2)
  next
    case 2
    with fp have a: "isDigit a" by simp
    have c: "c = digitsValue ip * 100 + digitValue a * 10"
      by (simp add: c_def 2 digitsValue_snoc algebra_simps)
    have v: "(of_nat (digitsValue (ip @ [a])) :: rat) = of_nat (digitsValue ip) * 10 + of_nat (digitValue a)"
      by (simp add: digitsValue_snoc)
    show ?thesis
      using digit_round_trip(1,2) [OF a]
      by (simp add: c v 2 digitChar_values field_simps)
  next
    case 3
    with fp have a: "isDigit a" and b: "isDigit b" by simp_all
    have e1: "digitsValue (ip @ [a, b]) = digitsValue ip * 10 ^ length [a, b] + digitsValue [a, b]"
      by (rule digitsValue_append)
    have e2: "(10::nat) ^ length [a, b] = 100" by simp
    have e3: "digitsValue [a, b] = digitValue a * 10 + digitValue b" by (simp add: digitsValue_def)
    have v: "digitsValue (ip @ [a, b]) = digitsValue ip * 100 + (digitValue a * 10 + digitValue b)"
      unfolding e1 e2 e3 by (rule refl)
    have c: "c = digitsValue ip * 100 + (digitValue a * 10 + digitValue b)"
      unfolding c_def 3 v by simp
    have bounds: "digitValue a < 10" "digitValue b < 10"
      using digit_round_trip(1) [OF a] digit_round_trip(1) [OF b] by simp_all
    have c': "c = (digitsValue ip * 10 + digitValue a) * 10 + digitValue b"
      unfolding c by simp
    have tens: "c div 10 = digitsValue ip * 10 + digitValue a"
      unfolding c' using bounds(2) by (rule base10(1))
    have d0: "c mod 10 = digitValue b"
      unfolding c' using bounds(2) by (rule base10(2))
    have d1: "c div 10 mod 10 = digitValue a"
      unfolding tens using bounds(1) by (rule base10(2))
    have "c div 100 = c div 10 div 10" by (simp add: div_mult2_eq [symmetric])
    also have "\<dots> = digitsValue ip" unfolding tens using bounds(1) by (rule base10(1))
    finally have d2: "c div 100 = digitsValue ip" .
    have "(of_nat (digitsValue (ip @ [a, b])) :: rat) / 10 ^ length [a, b] = of_nat c / 100"
      unfolding v c by simp
    then show ?thesis
      using digit_round_trip(2) [OF a] digit_round_trip(2) [OF b]
      by (simp add: d2 d1 d0 3)
  qed
  then show "(of_nat (digitsValue (ip @ fp)) :: rat) / 10 ^ length fp = of_nat c / 100"
    and "c div 100 = digitsValue ip"
    and "[digitChar (c div 10 mod 10), digitChar (c mod 10)] = fp @ replicate (2 - length fp) CHR ''0''"
    by simp_all
qed


text \<open>What \<open>formatAmount\<close> makes of the number \<open>parseFloat\<close> reads from an accepted amount.\<close>

lemma format_accepted:
  assumes valid: "validateAmount s = Valid"
  shows "\<exists>x. parseFloat s = x \<and> formatAmount (ANumber x) = Some (currencyPrefix @ twoDecimals s)"
proof -
  from valid have rx: "amountRegex_test s"
    and pos: "\<not> le (parseFloat s) (Finite 0)"
    and cap: "\<not> gt (parseFloat s) (binary64 (999999999999 / 100))"
    by (simp_all add: validateAmount_def Let_def split: if_splits)
  from amount_shape [OF rx] obtain ip fp where
    shape: "ip \<noteq> []" "list_all isDigit ip" "list_all isDigit fp" "length fp \<le> 2"
      "takeWhile isDigit s = ip" "dropWhile isDigit s = (if fp = [] then [] else CHR ''.'' # fp)"
    by blast
  define c where "c = digitsValue (ip @ fp) * 10 ^ (2 - length fp)"
  note h = hundredths [OF shape(3,4) c_def]
  have pf: "parseFloat s = binary64 (of_nat c / 100)"
    using parseFloat_shape [OF shape(1,3,5,6)] h(1) by simp
  have c1: "1 \<le> c"
  proof (rule ccontr)
    assume "\<not> 1 \<le> c"
    then have "c = 0" by simp
    with pf pos show False by (simp add: binary64_def)
  qed
  then have "(of_nat 1 :: rat) \<le> of_nat c" by (simp only: of_nat_le_iff)
  then have q_lo: "(1::rat) / 100 \<le> of_nat c / 100" by simp
  have c2: "c < 1000000000000"
  proof (rule ccontr)
    assume "\<not> c < 1000000000000"
    then have "(of_nat 1000000000000 :: rat) \<le> of_nat c" by (simp only: of_nat_le_iff not_less)
    then have "(999999999999::rat) / 100 + 1 / 200 \<le> of_nat c / 100" by simp
    then have "gt (binary64 (of_nat c / 100)) (binary64 (999999999999 / 100))"
      by (intro binary64_gt) simp_all
    with pf cap show False by simp
  qed
  then have "(of_nat c :: rat) < of_nat 1000000000000" by (simp only: of_nat_less_iff)
  then have q_hi: "(of_nat c :: rat) / 100 < 10000000000000" by simp
  from binary64_near [OF tiny_le [OF q_lo] huge_less [OF q_hi]] obtain v where
    v: "binary64 (of_nat c / 100) = Finite v" "\<bar>v - of_nat c / 100\<bar> \<le> of_nat c / 100 / 2 ^ 53"
    by blast
  have "twoDecimals s = stripLeadingZeros ip @ ''.'' @ fp @ replicate (2 - length fp) CHR ''0''"
  proof -
    have "s = takeWhile isDigit s @ dropWhile isDigit s" by simp
    then have "s = ip @ (if fp = [] then [] else CHR ''.'' # fp)" by (simp only: shape(5,6))
    then have dr: "drop (length ip + 1) s = fp" by (cases "fp = []") simp_all
    show ?thesis unfolding twoDecimals_def Let_def shape(5) dr by (rule refl)
  qed
  also have "\<dots> = digitsOf (c div 100) @ ''.'' @ [digitChar (c div 10 mod 10), digitChar (c mod 10)]"
    by (simp only: h(2,3) digitsOf_strip [OF shape(2)])
  finally have "toFixed2 (Finite v) = Some (twoDecimals s)"
    using toFixed2_cents [OF v(2) c2] by simp
  then show ?thesis by (simp add: pf v(1) formatAmount_def)
qed

lemma amount_5_valid: "validateAmount ''05.00'' = Valid" "validateAmount ''5'' = Valid"
proof -
  have five: "parseFloat ''05.00'' = binary64 5" "parseFloat ''5'' = binary64 5"
    by (simp_all add: parseFloat_def isDigit_def digitsValue_def digitValue_def)
  have "\<not> le (binary64 5) (Finite 0)" by (rule binary64_positive) simp
  moreover have "\<not> gt (binary64 5) (binary64 (999999999999 / 100))"
    by (rule binary64_not_gt) simp_all
  moreover have "\<not> isNaN (binary64 5)" by (rule binary64_finite) simp_all
  moreover have "amountRegex_test ''05.00''" "amountRegex_test ''5''"
    by (simp_all add: amountRegex_test_def isDigit_def)
  moreover have "trim ''05.00'' \<noteq> []" "trim ''5'' \<noteq> []"
    by (simp_all add: trim_def isWhiteSpace_def)
  ultimately show "validateAmount ''05.00'' = Valid" "validateAmount ''5'' = Valid"
    by (simp_all add: validateAmount_def five)
qed

lemma twoDecimals_values: "twoDecimals ''05.00'' = ''5.00''" "twoDecimals ''5'' = ''5.00''"
  by (simp_all add: twoDecimals_def stripLeadingZeros_def dropZeros_def isDigit_def
      numeral_2_eq_2)

text \<open>
  C5, as stated, fails: \<open>05.00\<close> matches the format, is accepted and has two fractional
  digits, yet the result is not \<open>05.00\<close>. \<open>formatAmount\<close> puts its currency prefix in
  front, and the number read from the string keeps no leading zero.
\<close>

theorem round_trip_adds_prefix:
  "formatParsed ''05.00'' = Some (currencyPrefix @ ''5.00'') \<and>
   formatParsed ''05.00'' \<noteq> Some ''05.00''"
  using format_accepted [OF amount_5_valid(1)]
  by (simp add: formatParsed_def parseAmount_def amount_5_valid(1) twoDecimals_values
      currencyPrefix_def)

text \<open>
  C5, amended. For every amount string \<open>s\<close> that \<open>validateAmount\<close> accepts,
  \<open>formatAmount(parseAmount(s))\<close> is the currency prefix of \<open>formatAmount\<close> followed by
  \<open>s\<close> with its fraction padded to two digits and the redundant leading zeros of its
  integer part removed (\<open>5\<close> gives the prefix and \<open>5.00\<close>). What follows the prefix is
  \<open>s\<close> itself when \<open>s\<close> has exactly two fractional digits and no redundant leading zero.
\<close>

theorem format_of_parsed_amount:
  assumes "validateAmount s = Valid"
  shows "formatParsed s = Some (currencyPrefix @ twoDecimals s) \<and>
         (length (dropWhile isDigit s) = 3 \<and>
          stripLeadingZeros (takeWhile isDigit s) = takeWhile isDigit s \<longrightarrow>
            twoDecimals s = s)"
proof
  show "formatParsed s = Some (currencyPrefix @ twoDecimals s)"
    using format_accepted [OF assms] assms by (simp add: formatParsed_def parseAmount_def)
  show "length (dropWhile isDigit s) = 3 \<and>
          stripLeadingZeros (takeWhile isDigit s) = takeWhile isDigit s \<longrightarrow>
            twoDecimals s = s"
  proof
    assume a: "length (dropWhile isDigit s) = 3 \<and>
          stripLeadingZeros (takeWhile isDigit s) = takeWhile isDigit s"
    have s: "s = takeWhile isDigit s @ dropWhile isDigit s" by simp
    from a obtain d r where r: "dropWhile isDigit s = d # r" "length r = 2"
      by (cases "dropWhile isDigit s") auto
    have dr: "drop (length (takeWhile isDigit s) + 1) s = r"
      by (subst (2) s) (simp add: r(1))
    from assms have "amountRegex_test s"
      by (simp add: validateAmount_def split: if_splits)
    then have "d = CHR ''.''" using r(1) by (simp add: amountRegex_test_def)
    have "twoDecimals s = takeWhile isDigit s @ CHR ''.'' # r"
      unfolding twoDecimals_def Let_def dr using a r(2) by simp
    also have "\<dots> = takeWhile isDigit s @ dropWhile isDigit s"
      using r(1) \<open>d = CHR ''.''\<close> by simp
    finally show "twoDecimals s = s" by simp
  qed
qed

theorem format_of_parsed_amount_witness:
  "validateAmount ''5'' = Valid \<and> formatParsed ''5'' = Some (currencyPrefix @ ''5.00'')"
  using format_of_parsed_amount [OF amount_5_valid(2)] amount_5_valid(2)
  by (simp add: twoDecimals_values)

section \<open>Properties of the request validation\<close>




section \<open>Properties of the guard\<close>

lemma uuid_nonempty: "uuidRegex_test k \<Longrightarrow> k \<noteq> []"
  by (auto simp: uuidRegex_test_def uuidRegex_def)

lemma sampleKey_is_uuid: "uuidRegex_test sampleKey"
  by (simp add: uuidRegex_test_def uuidRegex_def sampleKey_def hexClass_def)

text \<open>The three ways through the guard for a POST request with a well-formed key.\<close>

lemma guard_replay:
  assumes "http_method req = ''POST''" "idempotency_key req = Some k" "uuidRegex_test k"
    "\<not> findUnique_fails e" "idempotencyStore s k = Some existingRecord"
    "\<not> now_lookup e > expiresAt existingRecord"
  shows "idempotencyMiddleware e nxt req s =
           (Reply 200 (response existingRecord), [FindUnique k], s)"
  using assms uuid_nonempty [of k] by (simp add: idempotencyMiddleware_def)

lemma guard_new_key:
  assumes "http_method req = ''POST''" "idempotency_key req = Some k" "uuidRegex_test k"
    "\<not> findUnique_fails e" "idempotencyStore s k = None" "nxt (world s) = (r, w')"
  shows "idempotencyMiddleware e nxt req s =
     (r, FindUnique k # Next # fst (res_json e k r (racing e (idempotencyStore s))),
      \<lparr>idempotencyStore = snd (res_json e k r (racing e (idempotencyStore s))), world = w'\<rparr>)"
  using assms uuid_nonempty [of k]
  by (simp add: idempotencyMiddleware_def proceed_def split: prod.splits)

lemma guard_expired_key:
  assumes "http_method req = ''POST''" "idempotency_key req = Some k" "uuidRegex_test k"
    "\<not> findUnique_fails e" "idempotencyStore s k = Some existingRecord"
    "now_lookup e > expiresAt existingRecord" "\<not> delete_fails e" "nxt (world s) = (r, w')"
  shows "idempotencyMiddleware e nxt req s =
     (r, FindUnique k # Delete k # Next #
           fst (res_json e k r (racing e ((idempotencyStore s)(k := None)))),
      \<lparr>idempotencyStore = snd (res_json e k r (racing e ((idempotencyStore s)(k := None)))),
       world = w'\<rparr>)"
  using assms uuid_nonempty [of k]
  by (simp add: idempotencyMiddleware_def proceed_def split: prod.splits)

text \<open>
  C2. A POST request without the header, or with a header that is not a UUID, is answered
  with status 400 and the body \<open>{error: 'Bad Request', message}\<close>: the message says
  that the header is required when it is missing or empty and that it must be a valid UUID
  otherwise. The guard makes no call at all, neither \<open>next()\<close> nor a store call, and the
  state is the one it started from. (The router gives the guard POST requests only.)
\<close>

theorem guard_rejects_bad_key:
  assumes "http_method req = ''POST''"
    and "idempotency_key req = None \<or> (\<exists>k. idempotency_key req = Some k \<and> \<not> uuidRegex_test k)"
  shows "idempotencyMiddleware e nxt req s =
           (Reply 400
              (JObj [(''error'', JStr ''Bad Request''),
                     (''message'',
                      JStr (if idempotency_key req = None \<or> idempotency_key req = Some []
                            then ''Idempotency-Key header is required for POST requests''
                            else ''Idempotency-Key must be a valid UUID''))]),
            [], s)"
  using assms by (auto simp: idempotencyMiddleware_def badRequest_def)

theorem guard_rejects_bad_key_witness:
  "http_method (sampleRequest\<lparr>idempotency_key := Some ''1234-abcd''\<rparr>) = ''POST'' \<and>
   \<not> uuidRegex_test ''1234-abcd'' \<and>
   idempotencyMiddleware (calm 0) (handlers sampleClock sampleService sampleRequest)
     (sampleRequest\<lparr>idempotency_key := Some ''1234-abcd''\<rparr>) emptyState =
     (Reply 400
        (JObj [(''error'', JStr ''Bad Request''),
               (''message'', JStr ''Idempotency-Key must be a valid UUID'')]),
      [], emptyState)"
proof -
  have m: "http_method (sampleRequest\<lparr>idempotency_key := Some ''1234-abcd''\<rparr>) = ''POST''"
    by (simp add: sampleRequest_def)
  have u: "\<not> uuidRegex_test ''1234-abcd''"
    by (simp add: uuidRegex_test_def uuidRegex_def hexClass_def)
  show ?thesis
    using m u
      guard_rejects_bad_key [of "sampleRequest\<lparr>idempotency_key := Some ''1234-abcd''\<rparr>"
        "calm 0" "handlers sampleClock sampleService sampleRequest" emptyState]
    by simp
qed


text \<open>
  With no row to replay (none, or an expired one whose deletion succeeds) the guard hands
  the request on.
\<close>

lemma guard_fresh:
  assumes "http_method req = ''POST''" "idempotency_key req = Some k" "uuidRegex_test k"
    "\<not> findUnique_fails e"
    "idempotencyStore s k = None \<or>
     (\<exists>existingRecord. idempotencyStore s k = Some existingRecord \<and>
        expiresAt existingRecord < now_lookup e \<and> \<not> delete_fails e)"
    "nxt (world s) = (r, w')"
  shows "\<exists>purge. (purge = [] \<or> purge = [Delete k]) \<and>
     idempotencyMiddleware e nxt req s =
       (r, FindUnique k # purge @ Next #
             fst (res_json e k r (racing e ((idempotencyStore s)(k := None)))),
        \<lparr>idempotencyStore = snd (res_json e k r (racing e ((idempotencyStore s)(k := None)))),
         world = w'\<rparr>)"
proof (cases "idempotencyStore s k")
  case None
  then have "(idempotencyStore s)(k := None) = idempotencyStore s" by auto
  with guard_new_key [where req = req and k = k and e = e and s = s and nxt = nxt and r = r and w' = w']
    assms None
  show ?thesis by auto
next
  case (Some row)
  with assms(5) have "expiresAt row < now_lookup e" "\<not> delete_fails e" by auto
  with guard_expired_key [where req = req and k = k and e = e and s = s and nxt = nxt and r = r
      and w' = w' and existingRecord = row] assms Some
  show ?thesis by auto
qed




lemma sample_handlers: "handlers sampleClock sampleService sampleRequest w = (Reply 201 sampleExpense, Suc w)"
  by (simp add: handlers_def createExpense_def sampleRequest_def sample_body_valid sampleService_def)

lemma failing_handlers:
  "handlers sampleClock failingService sampleRequest w =
     (Reply 500 (JObj [(''error'', JStr ''Internal Server Error''),
                       (''message'', JStr ''An unexpected error occurred'')]), w)"
  by (simp add: handlers_def createExpense_def sampleRequest_def sample_body_valid
      failingService_def errorHandler_def defaultResponse_def)

lemma sample_request: "http_method sampleRequest = ''POST''" "idempotency_key sampleRequest = Some sampleKey"
  "req_body sampleRequest = sampleBody"
  by (simp_all add: sampleRequest_def)



text \<open>
  C8. When the lookup finds no row to replay and another request's row for the same key
  lands in the store before this request's own insert, the unique index rejects the
  insert and the rejection is dropped: the guard answers with exactly what the handlers
  sent, status and body, and the store keeps the other request's row.
\<close>

theorem lost_race_is_swallowed:
  assumes "http_method req = ''POST''" "idempotency_key req = Some k" "uuidRegex_test k"
    and "\<not> findUnique_fails e"
    and "idempotencyStore s k = None \<or>
      (\<exists>existingRecord. idempotencyStore s k = Some existingRecord \<and>
         expiresAt existingRecord < now_lookup e \<and> \<not> delete_fails e)"
    and "nxt (world s) = (r, w')" "200 \<le> statusCode r" "statusCode r < 300"
    and lost: "k \<in> dom (racing e ((idempotencyStore s)(k := None)))"
  shows "\<exists>purge. (purge = [] \<or> purge = [Delete k]) \<and>
           idempotencyMiddleware e nxt req s =
             (r, FindUnique k # purge @ [Next, Create k],
              \<lparr>idempotencyStore = racing e ((idempotencyStore s)(k := None)), world = w'\<rparr>)"
proof -
  have "res_json e k r (racing e ((idempotencyStore s)(k := None))) =
          ([Create k], racing e ((idempotencyStore s)(k := None)))"
    using assms(7,8) lost by (simp add: res_json_def)
  with guard_fresh [where req = req and k = k and e = e and s = s and nxt = nxt and r = r
      and w' = w'] assms(1-6)
  show ?thesis by simp
qed

theorem lost_race_is_swallowed_witness:
  "idempotencyMiddleware
     ((calm 1000)\<lparr>racing := (\<lambda>st. st(sampleKey \<mapsto>
        \<lparr>key = sampleKey, response = JStr ''theirs'', createdAt = 990, expiresAt = 86400990\<rparr>))\<rparr>)
     (handlers sampleClock sampleService sampleRequest) sampleRequest emptyState =
     (Reply 201 sampleExpense, [FindUnique sampleKey, Next, Create sampleKey],
      \<lparr>idempotencyStore =
         [sampleKey \<mapsto>
            \<lparr>key = sampleKey, response = JStr ''theirs'', createdAt = 990, expiresAt = 86400990\<rparr>],
       world = 1\<rparr>)"
  using lost_race_is_swallowed [where req = sampleRequest and k = sampleKey and s = emptyState
      and nxt = "handlers sampleClock sampleService sampleRequest"
      and r = "Reply 201 sampleExpense" and w' = 1
      and e = "(calm 1000)\<lparr>racing := (\<lambda>st. st(sampleKey \<mapsto>
        \<lparr>key = sampleKey, response = JStr ''theirs'', createdAt = 990, expiresAt = 86400990\<rparr>))\<rparr>"]
    sampleKey_is_uuid uuid_nonempty [of sampleKey]
  by (auto simp: sample_request sample_handlers calm_def emptyState_def
      idempotencyMiddleware_def proceed_def res_json_def)

text \<open>
  C6, as stated, fails: the deletion of an expired row is awaited inside the guard's
  \<open>try\<close> block, not attempted at best effort. When it is rejected the guard answers 500,
  \<open>next()\<close> is not called and the row stays.
\<close>

theorem failed_delete_blocks_request:
  "post_expenses ((calm 200)\<lparr>delete_fails := True\<rparr>) sampleClock sampleService sampleRequest
     staleState =
     (Reply 500 (JObj [(''error'', JStr ''Internal Server Error''),
                       (''message'', JStr ''Failed to process idempotency check'')]),
      [FindUnique sampleKey, Delete sampleKey], staleState) \<and>
   map_option expiresAt (idempotencyStore staleState sampleKey) = Some 100 \<and>
   now_lookup ((calm 200)\<lparr>delete_fails := True\<rparr>) = 200"
  using sampleKey_is_uuid uuid_nonempty [of sampleKey]
  by (simp add: post_expenses_def idempotencyMiddleware_def sample_request staleState_def
      calm_def checkFailed_def)

text \<open>
  C6, amended. When the lookup finds a row whose \<open>expiresAt\<close> is in the past, the guard
  deletes it. If the deletion succeeds the request proceeds as new: \<open>next()\<close> is called,
  its answer is passed on, and on a 2xx answer a new row is inserted for the key (it is
  stored unless the insert is rejected). If the deletion is rejected the guard answers 500
  without calling \<open>next()\<close> and leaves the store as it was.
\<close>

theorem expired_record_is_replaced:
  assumes "http_method req = ''POST''" "idempotency_key req = Some k" "uuidRegex_test k"
    and "\<not> findUnique_fails e"
    and "idempotencyStore s k = Some existingRecord" "expiresAt existingRecord < now_lookup e"
    and "nxt (world s) = (r, w')"
  shows "idempotencyMiddleware e nxt req s =
    (if delete_fails e then
       (Reply 500 (JObj [(''error'', JStr ''Internal Server Error''),
                         (''message'', JStr ''Failed to process idempotency check'')]),
        [FindUnique k, Delete k], s)
     else
       (r,
        FindUnique k # Delete k # Next #
          (if 200 \<le> statusCode r \<and> statusCode r < 300 then [Create k] else []),
        \<lparr>idempotencyStore =
           (if 200 \<le> statusCode r \<and> statusCode r < 300 \<and> \<not> create_fails e \<and>
               k \<notin> dom (racing e ((idempotencyStore s)(k := None)))
            then (racing e ((idempotencyStore s)(k := None)))
                   (k \<mapsto> \<lparr>key = k, response = body r, createdAt = db_now e,
                              expiresAt = now_intercept e + ttl\<rparr>)
            else racing e ((idempotencyStore s)(k := None))),
         world = w'\<rparr>))"
proof (cases "delete_fails e")
  case True
  then show ?thesis
    using assms uuid_nonempty [of k] by (simp add: idempotencyMiddleware_def checkFailed_def)
next
  case False
  then show ?thesis
    using guard_expired_key [where req = req and k = k and e = e and s = s and nxt = nxt
        and r = r and w' = w' and existingRecord = existingRecord] assms
    by (auto simp: res_json_def)
qed

theorem expired_record_is_replaced_witness:
  "post_expenses (calm 200) sampleClock sampleService sampleRequest staleState =
     (Reply 201 sampleExpense,
      [FindUnique sampleKey, Delete sampleKey, Next, Create sampleKey],
      \<lparr>idempotencyStore =
         [sampleKey \<mapsto> \<lparr>key = sampleKey, response = sampleExpense, createdAt = 200,
                         expiresAt = 86400200\<rparr>],
       world = 2\<rparr>)"
  using expired_record_is_replaced [where req = sampleRequest and k = sampleKey
      and e = "calm 200" and s = staleState
      and nxt = "handlers sampleClock sampleService sampleRequest"
      and r = "Reply 201 sampleExpense" and w' = 2
      and existingRecord = "\<lparr>key = sampleKey, response = sampleExpense, createdAt = 0,
                              expiresAt = 100\<rparr>"]
    sampleKey_is_uuid
  by (simp add: post_expenses_def sample_request sample_handlers calm_def staleState_def ttl_def)


text \<open>
  C3, as stated, fails: on a failed request the guard can write to the store. With an
  expired row for the key it deletes the row before the handlers run, and they then fail.
\<close>

theorem delete_is_a_write_on_failure:
  "post_expenses (calm 200) sampleClock failingService sampleRequest staleState =
     (Reply 500 (JObj [(''error'', JStr ''Internal Server Error''),
                       (''message'', JStr ''An unexpected error occurred'')]),
      [FindUnique sampleKey, Delete sampleKey, Next],
      \<lparr>idempotencyStore = Map.empty, world = 1\<rparr>) \<and>
   idempotencyStore staleState sampleKey \<noteq> None"
  using guard_expired_key [where req = sampleRequest and k = sampleKey and e = "calm 200"
      and s = staleState and nxt = "handlers sampleClock failingService sampleRequest"
      and r = "Reply 500 (JObj [(''error'', JStr ''Internal Server Error''),
                       (''message'', JStr ''An unexpected error occurred'')])"
      and w' = 1
      and existingRecord = "\<lparr>key = sampleKey, response = sampleExpense, createdAt = 0,
                              expiresAt = 100\<rparr>"]
    sampleKey_is_uuid
  by (simp add: post_expenses_def sample_request failing_handlers calm_def staleState_def
      res_json_def)

text \<open>
  C3, amended. For a POST request with a well-formed key whose lookup succeeds: on a
  replay the guard makes the lookup and nothing else. Otherwise (no row, or an expired one
  that it deletes) the answer of the handlers is passed on unchanged; if it is not 2xx no
  insert is made and no row is created, so the key can be retried, and if it is 2xx exactly
  one insert is made, which stores the row unless it is rejected. The one other store
  write is the deletion of the expired row that the lookup found.
\<close>

theorem store_writes_of_the_guard:
  assumes "http_method req = ''POST''" "idempotency_key req = Some k" "uuidRegex_test k"
    and "\<not> findUnique_fails e"
    and nxt: "nxt (world s) = (r, w')"
    and run: "idempotencyMiddleware e nxt req s = (reply, evs, s')"
  shows
    "((\<exists>row. idempotencyStore s k = Some row \<and> \<not> expiresAt row < now_lookup e) \<longrightarrow>
        evs = [FindUnique k] \<and> s' = s) \<and>
     ((idempotencyStore s k = None \<or>
       (\<exists>row. idempotencyStore s k = Some row \<and> expiresAt row < now_lookup e \<and>
          \<not> delete_fails e)) \<longrightarrow>
        reply = r \<and> world s' = w' \<and>
        (Delete k \<in> set evs \<longleftrightarrow> idempotencyStore s k \<noteq> None) \<and>
        (if 200 \<le> statusCode r \<and> statusCode r < 300 then
           count_list evs (Create k) = 1 \<and>
           idempotencyStore s' =
             (if \<not> create_fails e \<and> k \<notin> dom (racing e ((idempotencyStore s)(k := None)))
              then (racing e ((idempotencyStore s)(k := None)))
                     (k \<mapsto> \<lparr>key = k, response = body r, createdAt = db_now e,
                                expiresAt = now_intercept e + ttl\<rparr>)
              else racing e ((idempotencyStore s)(k := None)))
         else
           Create k \<notin> set evs \<and>
           idempotencyStore s' = racing e ((idempotencyStore s)(k := None))))"
proof (intro conjI impI)
  assume "\<exists>row. idempotencyStore s k = Some row \<and> \<not> expiresAt row < now_lookup e"
  then obtain row where "idempotencyStore s k = Some row" "\<not> expiresAt row < now_lookup e"
    by blast
  with guard_replay [where req = req and k = k and e = e and s = s and nxt = nxt
      and existingRecord = row] assms
  show "evs = [FindUnique k]" "s' = s" by simp_all
next
  assume fresh: "idempotencyStore s k = None \<or>
       (\<exists>row. idempotencyStore s k = Some row \<and> expiresAt row < now_lookup e \<and>
          \<not> delete_fails e)"
  let ?R = "racing e ((idempotencyStore s)(k := None))"
  let ?purge = "if idempotencyStore s k = None then [] else [Delete k]"
  have path: "idempotencyMiddleware e nxt req s =
          (r, FindUnique k # ?purge @ Next # fst (res_json e k r ?R),
           \<lparr>idempotencyStore = snd (res_json e k r ?R), world = w'\<rparr>)"
  proof (cases "idempotencyStore s k")
    case None
    then have "(idempotencyStore s)(k := None) = idempotencyStore s" by auto
    with guard_new_key [where req = req and k = k and e = e and s = s and nxt = nxt and r = r
        and w' = w'] assms None
    show ?thesis by simp
  next
    case (Some row)
    with fresh have "expiresAt row < now_lookup e" "\<not> delete_fails e" by auto
    with guard_expired_key [where req = req and k = k and e = e and s = s and nxt = nxt
        and r = r and w' = w' and existingRecord = row] assms Some
    show ?thesis by simp
  qed
  have "(reply, evs, s') =
          (r, FindUnique k # ?purge @ Next # fst (res_json e k r ?R),
           \<lparr>idempotencyStore = snd (res_json e k r ?R), world = w'\<rparr>)"
    unfolding run [symmetric] by (rule path)
  then have reply: "reply = r"
    and evs: "evs = FindUnique k # ?purge @ Next # fst (res_json e k r ?R)"
    and s': "s' = \<lparr>idempotencyStore = snd (res_json e k r ?R), world = w'\<rparr>"
    by (simp_all only: prod.inject)
  have fst_json: "fst (res_json e k r ?R) =
      (if 200 \<le> statusCode r \<and> statusCode r < 300 then [Create k] else [])"
    by (simp add: res_json_def)
  have snd_json: "snd (res_json e k r ?R) =
      (if 200 \<le> statusCode r \<and> statusCode r < 300 \<and> \<not> create_fails e \<and> k \<notin> dom ?R
       then ?R(k \<mapsto> \<lparr>key = k, response = body r, createdAt = db_now e,
                         expiresAt = now_intercept e + ttl\<rparr>)
       else ?R)"
    by (simp add: res_json_def)
  show "reply = r" by (rule reply)
  show "world s' = w'" by (simp add: s')
  show "Delete k \<in> set evs \<longleftrightarrow> idempotencyStore s k \<noteq> None"
    by (simp add: evs fst_json)
  show "if 200 \<le> statusCode r \<and> statusCode r < 300 then
           count_list evs (Create k) = 1 \<and>
           idempotencyStore s' =
             (if \<not> create_fails e \<and> k \<notin> dom ?R
              then ?R(k \<mapsto> \<lparr>key = k, response = body r, createdAt = db_now e,
                                expiresAt = now_intercept e + ttl\<rparr>)
              else ?R)
         else Create k \<notin> set evs \<and> idempotencyStore s' = ?R"
    by (simp add: evs s' fst_json snd_json)
qed


theorem store_writes_of_the_guard_witness:
  "fst (idempotencyMiddleware (calm 1000) (handlers sampleClock failingService sampleRequest)
          sampleRequest emptyState) =
     Reply 500 (JObj [(''error'', JStr ''Internal Server Error''),
                      (''message'', JStr ''An unexpected error occurred'')]) \<and>
   Create sampleKey \<notin> set (fst (snd (idempotencyMiddleware (calm 1000)
          (handlers sampleClock failingService sampleRequest) sampleRequest emptyState))) \<and>
   idempotencyStore (snd (snd (idempotencyMiddleware (calm 1000)
          (handlers sampleClock failingService sampleRequest) sampleRequest emptyState))) =
     Map.empty"
proof -
  let ?run = "idempotencyMiddleware (calm 1000)
          (handlers sampleClock failingService sampleRequest) sampleRequest emptyState"
  have nxt: "handlers sampleClock failingService sampleRequest (world emptyState) =
      (Reply 500 (JObj [(''error'', JStr ''Internal Server Error''),
                        (''message'', JStr ''An unexpected error occurred'')]), 0)"
    by (simp add: failing_handlers emptyState_def)
  have works: "\<not> findUnique_fails (calm 1000)" by (simp add: calm_def)
  have run: "?run = (fst ?run, fst (snd ?run), snd (snd ?run))" by simp
  from store_writes_of_the_guard [OF sample_request(1,2) sampleKey_is_uuid works nxt run]
  show ?thesis by (simp add: emptyState_def calm_def)
qed




section \<open>Properties of the key generator\<close>


lemma toString16_digit: "n < 16 \<Longrightarrow> toString16 n = [hexDigits ! n]"
  by (simp add: toString16.simps)

lemma variant_nibble:
  fixes r :: nat
  assumes "r < 16"
  shows "(r AND 3) OR 8 \<in> {8, 9, 10, 11}"
proof -
  from assms have "r = 0 \<or> r = 1 \<or> r = 2 \<or> r = 3 \<or> r = 4 \<or> r = 5 \<or> r = 6 \<or> r = 7 \<or>
      r = 8 \<or> r = 9 \<or> r = 10 \<or> r = 11 \<or> r = 12 \<or> r = 13 \<or> r = 14 \<or> r = 15"
    by arith
  then show ?thesis by (elim disjE; hypsubst; code_simp)
qed

lemma random_nibble:
  assumes "0 \<le> u" "u < (1::rat)"
  shows "nat \<lfloor>u * 16\<rfloor> < 16"
proof -
  have "\<lfloor>u * 16\<rfloor> < 16" using assms by (simp add: floor_less_iff)
  then show ?thesis by linarith
qed

lemma replacement_x:
  assumes "0 \<le> u" "u < 1"
  shows "\<exists>d. replacement CHR ''x'' u = [d] \<and> d \<in> set ''0123456789abcdef''"
proof -
  let ?r = "nat \<lfloor>u * 16\<rfloor>"
  have r: "?r < 16" by (rule random_nibble [OF assms])
  then have "?r < length hexDigits" by (simp add: hexDigits_def)
  then have "hexDigits ! ?r \<in> set hexDigits" by (rule nth_mem)
  then have "hexDigits ! ?r \<in> set ''0123456789abcdef''" by (simp only: hexDigits_def)
  moreover have "replacement CHR ''x'' u = [hexDigits ! ?r]"
    using r by (simp add: replacement_def toString16_digit)
  ultimately show ?thesis by blast
qed

lemma replacement_y:
  assumes "0 \<le> u" "u < 1"
  shows "\<exists>d. replacement CHR ''y'' u = [d] \<and> d \<in> set ''89ab''"
proof -
  let ?v = "(nat \<lfloor>u * 16\<rfloor> AND 3) OR 8"
  from variant_nibble [OF random_nibble [OF assms]]
  have v: "?v \<in> {8, 9, 10, 11}" .
  then have "?v < 16" by auto
  then have "replacement CHR ''y'' u = [hexDigits ! ?v]"
    by (simp add: replacement_def toString16_digit)
  moreover have "hexDigits ! ?v \<in> set ''89ab''"
    using v by (auto simp: hexDigits_def)
  ultimately show ?thesis by blast
qed

lemma replaceAll_filled:
  assumes "\<forall>i. 0 \<le> random i \<and> random i < 1"
  shows "list_all2 filled t (replaceAll random i t)"
proof (induction t arbitrary: i)
  case Nil
  show ?case by simp
next
  case (Cons c cs)
  have range: "0 \<le> random i" "random i < 1" using assms by simp_all
  show ?case
  proof (cases "c = CHR ''x''")
    case True
    from replacement_x [OF range] obtain d where
      "replacement CHR ''x'' (random i) = [d]" "lowerHex d"
      unfolding lowerHex_def by blast
    with True Cons [of "Suc i"] show ?thesis by (simp add: filled_def)
  next
    case False
    show ?thesis
    proof (cases "c = CHR ''y''")
      case True
      from replacement_y [OF range] obtain d where
        "replacement CHR ''y'' (random i) = [d]" "variantDigit d"
        unfolding variantDigit_def by blast
      with True Cons [of "Suc i"] show ?thesis by (simp add: filled_def)
    next
      case no: False
      with False Cons [of i] show ?thesis by (simp add: filled_def)
    qed
  qed
qed

lemma lowerHex_hexClass: "lowerHex d \<Longrightarrow> hexClass d"
  by (auto simp: lowerHex_def hexClass_def)

lemma hexClass_4: "hexClass CHR ''4''"
  by (simp add: hexClass_def)

lemma variantDigit_hexClass: "variantDigit d \<Longrightarrow> hexClass d"
  by (auto simp: variantDigit_def hexClass_def)

lemma keyChar_intros: "lowerHex d \<Longrightarrow> keyChar d" "variantDigit d \<Longrightarrow> keyChar d"
  "keyChar CHR ''-''" "keyChar CHR ''4''"
  by (auto simp: lowerHex_def variantDigit_def keyChar_def)

text \<open>
  C9. Whatever \<open>Math.random()\<close> returns (values in \<open>[0, 1)\<close>), the generated key
  matches the guard's \<open>uuidRegex\<close>, so the guard does not reject it as malformed. It has
  36 characters, all of them lower-case hexadecimal digits or hyphens, with \<open>4\<close> as the
  version digit and one of \<open>8\<close>, \<open>9\<close>, \<open>a\<close>, \<open>b\<close> as the variant digit.
\<close>

theorem generated_key_is_accepted:
  assumes "\<forall>i. 0 \<le> random i \<and> random i < 1"
  shows "uuidRegex_test (generateIdempotencyKey random) \<and>
         length (generateIdempotencyKey random) = 36 \<and>
         generateIdempotencyKey random ! 14 = CHR ''4'' \<and>
         generateIdempotencyKey random ! 19 \<in> set ''89ab'' \<and>
         list_all (\<lambda>c. c \<in> set ''0123456789abcdef-'') (generateIdempotencyKey random)"
proof -
  have "list_all2 filled ''xxxxxxxx-xxxx-4xxx-yxxx-xxxxxxxxxxxx'' (generateIdempotencyKey random)"
    unfolding generateIdempotencyKey_def by (rule replaceAll_filled [OF assms])
  then have "uuidRegex_test (generateIdempotencyKey random) \<and>
         length (generateIdempotencyKey random) = 36 \<and>
         generateIdempotencyKey random ! 14 = CHR ''4'' \<and>
         variantDigit (generateIdempotencyKey random ! 19) \<and>
         list_all keyChar (generateIdempotencyKey random)"
    by (clarsimp simp: list_all2_Cons1 filled_def uuidRegex_test_def uuidRegex_def
        lowerHex_hexClass variantDigit_hexClass hexClass_4 keyChar_intros)
  moreover have "keyChar = (\<lambda>c. c \<in> set ''0123456789abcdef-'')"
    by (rule ext) (simp only: keyChar_def)
  ultimately show ?thesis
    by (simp only: variantDigit_def)
qed

theorem generated_key_is_accepted_witness:
  "generateIdempotencyKey (\<lambda>i. 7 / 16) = ''77777777-7777-4777-b777-777777777777'' \<and>
   uuidRegex_test ''77777777-7777-4777-b777-777777777777''"
proof -
  have x: "replacement CHR ''x'' (7 / 16) = ''7''" by code_simp
  have y: "replacement CHR ''y'' (7 / 16) = ''b''" by code_simp
  have key: "generateIdempotencyKey (\<lambda>i. 7 / 16) = ''77777777-7777-4777-b777-777777777777''"
    by (simp add: generateIdempotencyKey_def x y)
  from generated_key_is_accepted [of "\<lambda>i. 7 / 16"] show ?thesis
    by (simp add: key)
qed

end
